theory Spec2Isabelle
  imports Main "HOL-Library.AList"
begin

section \<open>Python values\<close>

text \<open>
  The values that travel through \<^verbatim>\<open>libcloud/common/openstack.py\<close> are what
  \<^verbatim>\<open>json.loads\<close> produces, plus \<^verbatim>\<open>None\<close> and strings taken from response
  headers.  A dict is an association list in insertion order; lookups go through
  \<open>map_of\<close>, so the first binding of a key is the one a dict holds.  Numbers are
  taken to be integers: the fields this module reads hold strings, and a number
  matters only as a dict key or for its truth value.
\<close>

datatype json =
    JNull
  | JBool bool
  | JNum int
  | JStr string
  | JArr "json list"
  | JObj "(string \<times> json) list"

text \<open>The second argument of \<^verbatim>\<open>MalformedResponseError(value, body=None, driver=None)\<close>.\<close>

datatype mbody = NoBody | Body string | CaughtException

datatype error =
    InvalidCredsError
  | MalformedResponseError string mbody
  | LibcloudError string
  | KeyError
  | TypeError
  | AttributeError
  | IndexError
  | UnboundLocalError
  | ExternalError string

text \<open>Python truthiness: what \<^verbatim>\<open>not x\<close> and \<^verbatim>\<open>if x:\<close> test.\<close>

fun truthy :: "json \<Rightarrow> bool" where
  "truthy JNull = False"
| "truthy (JBool b) = b"
| "truthy (JNum n) = (n \<noteq> 0)"
| "truthy (JStr s) = (s \<noteq> [])"
| "truthy (JArr xs) = (xs \<noteq> [])"
| "truthy (JObj kvs) = (kvs \<noteq> [])"

text \<open>\<^verbatim>\<open>obj[k]\<close> for a string \<open>k\<close>: a dict raises KeyError on a missing key, every
  other value raises TypeError (a list or a string wants an integer index, the rest
  are not subscriptable).\<close>

fun py_getitem :: "json \<Rightarrow> string \<Rightarrow> error + json" where
  "py_getitem (JObj kvs) k = (case map_of kvs k of None \<Rightarrow> Inl KeyError | Some v \<Rightarrow> Inr v)"
| "py_getitem _ k = Inl TypeError"

text \<open>\<^verbatim>\<open>obj[k1][k2]...\<close>, left to right.\<close>

fun py_path :: "json \<Rightarrow> string list \<Rightarrow> error + json" where
  "py_path v [] = Inr v"
| "py_path v (k # ks) = (case py_getitem v k of Inl e \<Rightarrow> Inl e | Inr w \<Rightarrow> py_path w ks)"

text \<open>\<^verbatim>\<open>obj.get(k, default)\<close>: only a dict has the method.\<close>

fun py_get :: "json \<Rightarrow> string \<Rightarrow> json \<Rightarrow> error + json" where
  "py_get (JObj kvs) k d = Inr (case map_of kvs k of None \<Rightarrow> d | Some v \<Rightarrow> v)"
| "py_get _ k d = Inl AttributeError"

text \<open>\<^verbatim>\<open>for x in obj\<close>: a list yields its elements, a dict its keys (each once:
  \<open>AList.clearjunk\<close> keeps the first binding of every key), a string its characters;
  the other values are not iterable.\<close>

fun py_iter :: "json \<Rightarrow> error + json list" where
  "py_iter (JArr xs) = Inr xs"
| "py_iter (JObj kvs) = Inr (map (\<lambda>kv. JStr (fst kv)) (AList.clearjunk kvs))"
| "py_iter (JStr s) = Inr (map (\<lambda>c. JStr [c]) s)"
| "py_iter _ = Inl TypeError"

text \<open>\<^verbatim>\<open>obj.items()\<close>: only a dict has the method; each key comes once, with the
  value the dict holds for it.\<close>

fun py_items :: "json \<Rightarrow> error + (string \<times> json) list" where
  "py_items (JObj kvs) = Inr (AList.clearjunk kvs)"
| "py_items _ = Inl AttributeError"

text \<open>
  Dict keys.  Using a value as a key hashes it: lists and dicts are unhashable
  (TypeError); \<^verbatim>\<open>True\<close> and \<^verbatim>\<open>False\<close> are the keys \<open>1\<close> and \<open>0\<close>.
\<close>

datatype hkey = KNone | KNum int | KStr string

fun hash_key :: "json \<Rightarrow> error + hkey" where
  "hash_key JNull = Inr KNone"
| "hash_key (JBool b) = Inr (KNum (if b then 1 else 0))"
| "hash_key (JNum n) = Inr (KNum n)"
| "hash_key (JStr s) = Inr (KStr s)"
| "hash_key (JArr xs) = Inl TypeError"
| "hash_key (JObj kvs) = Inl TypeError"

text \<open>\<^verbatim>\<open>needle in haystack\<close> on strings: a substring test.\<close>

fun starts_with :: "string \<Rightarrow> string \<Rightarrow> bool" where
  "starts_with [] ys = True"
| "starts_with (x # xs) [] = False"
| "starts_with (x # xs) (y # ys) = (x = y \<and> starts_with xs ys)"

fun str_contains :: "string \<Rightarrow> string \<Rightarrow> bool" where
  "str_contains needle [] = (needle = [])"
| "str_contains needle (c # cs) = (starts_with needle (c # cs) \<or> str_contains needle cs)"

text \<open>\<^verbatim>\<open>'%s' % n\<close> for an integer: its decimal digits.\<close>

definition digit_char :: "nat \<Rightarrow> char" where
  "digit_char d = char_of (48 + d)"

fun str_nat :: "nat \<Rightarrow> string" where
  "str_nat n = (if n < 10 then [digit_char n] else str_nat (n div 10) @ [digit_char (n mod 10)])"

definition str_int :: "int \<Rightarrow> string" where
  "str_int i = (if i < 0 then CHR ''-'' # str_nat (nat (- i)) else str_nat (nat i))"

section \<open>Time\<close>

text \<open>
  A \<^verbatim>\<open>datetime\<close> is an instant: microseconds since the epoch, in UTC (the calendar
  bounds of \<^verbatim>\<open>datetime\<close> are not modelled).  \<^verbatim>\<open>utctimetuple()\<close> drops the microsecond
  field; two such tuples compare as their whole seconds do, their first six fields
  being year to second and the rest functions of the date.
\<close>

type_synonym instant = int

definition AUTH_TOKEN_EXPIRES_GRACE_SECONDS :: int where
  "AUTH_TOKEN_EXPIRES_GRACE_SECONDS = 5"

definition timedelta_seconds :: "int \<Rightarrow> int" where
  "timedelta_seconds n = n * 1000000"

definition utctimetuple :: "instant \<Rightarrow> int" where
  "utctimetuple t = t div 1000000"

section \<open>The Auth Client\<close>

record response =
  status :: int
  body :: string
  headers :: "(string \<times> string) list"

text \<open>The arguments of one \<^verbatim>\<open>self.request(action, data=..., headers=..., method=...)\<close>
  call; \<open>req_data\<close> is the value handed to \<^verbatim>\<open>json.dumps\<close>.\<close>

record http_request =
  req_action :: string
  req_method :: string
  req_headers :: "(string \<times> string) list"
  req_data :: "json option"

text \<open>
  What the module takes from outside: \<^verbatim>\<open>self.request\<close> (it returns the response
  object or raises), \<^verbatim>\<open>json.loads\<close> (\<open>None\<close> when it raises),
  \<^verbatim>\<open>parse_date\<close> of \<^verbatim>\<open>libcloud.utils.iso8601\<close>, \<^verbatim>\<open>datetime.utcnow()\<close>, and the
  text \<^verbatim>\<open>'%s'\<close> gives for a dict of headers.
\<close>

record env =
  request :: "http_request \<Rightarrow> error + response"
  json_loads :: "string \<Rightarrow> json option"
  parse_date :: "json \<Rightarrow> error + instant"
  utcnow :: instant
  str_headers :: "(string \<times> string) list \<Rightarrow> string"

record auth_conn =
  auth_version :: string
  user_id :: string
  key :: string
  tenant_name :: "string option"
  urls :: json
  auth_token :: json
  auth_token_expires :: "instant option"
  auth_user_info :: json

definition AUTH_VERSIONS_WITH_EXPIRES :: "string list" where
  "AUTH_VERSIONS_WITH_EXPIRES = [''1.1'', ''2.0'', ''2.0_apikey'', ''2.0_password'']"

text \<open>\<^verbatim>\<open>OpenStackAuthConnection.__init__\<close>: nothing is cached yet.\<close>

definition OpenStackAuthConnection :: "string \<Rightarrow> string \<Rightarrow> string \<Rightarrow> string option \<Rightarrow> auth_conn" where
  "OpenStackAuthConnection ver uid k tenant =
     \<lparr>auth_version = ver, user_id = uid, key = k, tenant_name = tenant,
      urls = JObj [], auth_token = JNull, auth_token_expires = None,
      auth_user_info = JNull\<rparr>"

text \<open>\<^verbatim>\<open>_is_token_valid\<close>.  A \<^verbatim>\<open>datetime\<close> is always truthy, so
  \<^verbatim>\<open>not self.auth_token_expires\<close> asks whether the expiry is \<^verbatim>\<open>None\<close>.\<close>

definition is_token_valid :: "env \<Rightarrow> auth_conn \<Rightarrow> bool" where
  "is_token_valid e s =
     (if \<not> truthy (auth_token s) then False
      else case auth_token_expires s of
        None \<Rightarrow> False
      | Some ex \<Rightarrow>
          (let expires = ex - timedelta_seconds AUTH_TOKEN_EXPIRES_GRACE_SECONDS;
               time_tuple_expires = utctimetuple expires;
               time_tuple_now = utctimetuple (utcnow e)
           in if time_tuple_now < time_tuple_expires then True else False))"

text \<open>\<^verbatim>\<open>headers.get(name, None)\<close> on the response headers.\<close>

definition header_get :: "(string \<times> string) list \<Rightarrow> string \<Rightarrow> json" where
  "header_get hs k = (case map_of hs k of None \<Rightarrow> JNull | Some v \<Rightarrow> JStr v)"

text \<open>\<^verbatim>\<open>authenticate_1_0\<close>: the request it sends, and what it does with the response.\<close>

definition authenticate_1_0_request :: "auth_conn \<Rightarrow> http_request" where
  "authenticate_1_0_request s =
     \<lparr>req_action = ''/v1.0'', req_method = ''GET'',
      req_headers = [(''X-Auth-User'', user_id s), (''X-Auth-Key'', key s)],
      req_data = None\<rparr>"

definition authenticate_1_0_response :: "env \<Rightarrow> auth_conn \<Rightarrow> response \<Rightarrow> error option \<times> auth_conn" where
  "authenticate_1_0_response e s resp =
     (if status resp = 401 then (Some InvalidCredsError, s)
      else if status resp \<noteq> 204 then
        (Some (MalformedResponseError ''Malformed response''
           (Body (''code: '' @ str_int (status resp) @ '' body:'' @ body resp
                  @ '' headers:'' @ str_headers e (headers resp)))), s)
      else
        (let hs = headers resp;
             s1 = s\<lparr>urls := JObj
                    [(''cloudServers'', JArr [JObj [(''publicURL'', header_get hs ''x-server-management-url'')]]),
                     (''cloudFilesCDN'', JArr [JObj [(''publicURL'', header_get hs ''x-cdn-management-url'')]]),
                     (''cloudFiles'', JArr [JObj [(''publicURL'', header_get hs ''x-storage-url'')]])]\<rparr>;
             s2 = s1\<lparr>auth_token := header_get hs ''x-auth-token''\<rparr>;
             s3 = s2\<lparr>auth_user_info := JNull\<rparr>
         in if \<not> truthy (auth_token s3) then
              (Some (MalformedResponseError
                 (''Missing X-Auth-Token in '' @ replicate 46 CHR '' '' @ ''response headers'') NoBody), s3)
            else (None, s3)))"

text \<open>A handshake sends its one request; what the transport raises goes to the caller.\<close>

definition handshake :: "env \<Rightarrow> auth_conn \<Rightarrow> http_request \<Rightarrow>
    (env \<Rightarrow> auth_conn \<Rightarrow> response \<Rightarrow> error option \<times> auth_conn) \<Rightarrow>
    error option \<times> auth_conn \<times> http_request list" where
  "handshake e s req on_response =
     (case request e req of
        Inl err \<Rightarrow> (Some err, s, [req])
      | Inr resp \<Rightarrow> (case on_response e s resp of (r, s') \<Rightarrow> (r, s', [req])))"

definition authenticate_1_0 :: "env \<Rightarrow> auth_conn \<Rightarrow> error option \<times> auth_conn \<times> http_request list" where
  "authenticate_1_0 e s = handshake e s (authenticate_1_0_request s) authenticate_1_0_response"

text \<open>\<^verbatim>\<open>except KeyError: raise MalformedResponseError(..., e)\<close> around the field
  extraction of the 1.1 and 2.0 handshakes; any other exception passes through.\<close>

definition except_KeyError :: "error option \<times> auth_conn \<Rightarrow> error option \<times> auth_conn" where
  "except_KeyError r =
     (case r of
        (Some KeyError, s) \<Rightarrow>
          (Some (MalformedResponseError
             (''Auth JSON response is '' @ replicate 45 CHR '' '' @ ''missing required elements'')
             CaughtException), s)
      | _ \<Rightarrow> r)"

text \<open>\<^verbatim>\<open>authenticate_1_1\<close>.  The assignments of the \<^verbatim>\<open>try\<close> block run in order, each
  on the state the earlier ones left.\<close>

definition authenticate_1_1_request :: "auth_conn \<Rightarrow> http_request" where
  "authenticate_1_1_request s =
     \<lparr>req_action = ''/v1.1/auth'', req_method = ''POST'', req_headers = [],
      req_data = Some (JObj [(''credentials'',
                   JObj [(''username'', JStr (user_id s)), (''key'', JStr (key s))])])\<rparr>"

definition authenticate_1_1_fields :: "env \<Rightarrow> auth_conn \<Rightarrow> json \<Rightarrow> error option \<times> auth_conn" where
  "authenticate_1_1_fields e s b =
     (case py_path b [''auth'', ''token'', ''expires''] of
        Inl err \<Rightarrow> (Some err, s)
      | Inr expires \<Rightarrow>
          (case py_path b [''auth'', ''token'', ''id''] of
             Inl err \<Rightarrow> (Some err, s)
           | Inr tok \<Rightarrow>
               (let s1 = s\<lparr>auth_token := tok\<rparr> in
                case parse_date e expires of
                  Inl err \<Rightarrow> (Some err, s1)
                | Inr t \<Rightarrow>
                    (let s2 = s1\<lparr>auth_token_expires := Some t\<rparr> in
                     case py_path b [''auth'', ''serviceCatalog''] of
                       Inl err \<Rightarrow> (Some err, s2)
                     | Inr cat \<Rightarrow> (None, s2\<lparr>urls := cat, auth_user_info := JNull\<rparr>)))))"

definition authenticate_1_1_response :: "env \<Rightarrow> auth_conn \<Rightarrow> response \<Rightarrow> error option \<times> auth_conn" where
  "authenticate_1_1_response e s resp =
     (if status resp = 401 then (Some InvalidCredsError, s)
      else if status resp \<noteq> 200 then
        (Some (MalformedResponseError ''Malformed response''
           (Body (''code: '' @ str_int (status resp) @ '' body:'' @ body resp))), s)
      else
        (case json_loads e (body resp) of
           None \<Rightarrow> (Some (MalformedResponseError ''Failed to parse JSON'' CaughtException), s)
         | Some b \<Rightarrow> except_KeyError (authenticate_1_1_fields e s b)))"

definition authenticate_1_1 :: "env \<Rightarrow> auth_conn \<Rightarrow> error option \<times> auth_conn \<times> http_request list" where
  "authenticate_1_1 e s = handshake e s (authenticate_1_1_request s) authenticate_1_1_response"

text \<open>\<^verbatim>\<open>authenticate_2_0_with_body\<close>, and the two request bodies that reach it.\<close>

definition authenticate_2_0_fields :: "env \<Rightarrow> auth_conn \<Rightarrow> json \<Rightarrow> error option \<times> auth_conn" where
  "authenticate_2_0_fields e s b =
     (case py_getitem b ''access'' of
        Inl err \<Rightarrow> (Some err, s)
      | Inr access \<Rightarrow>
          (case py_path access [''token'', ''expires''] of
             Inl err \<Rightarrow> (Some err, s)
           | Inr expires \<Rightarrow>
               (case py_path access [''token'', ''id''] of
                  Inl err \<Rightarrow> (Some err, s)
                | Inr tok \<Rightarrow>
                    (let s1 = s\<lparr>auth_token := tok\<rparr> in
                     case parse_date e expires of
                       Inl err \<Rightarrow> (Some err, s1)
                     | Inr t \<Rightarrow>
                         (let s2 = s1\<lparr>auth_token_expires := Some t\<rparr> in
                          case py_getitem access ''serviceCatalog'' of
                            Inl err \<Rightarrow> (Some err, s2)
                          | Inr cat \<Rightarrow>
                              (let s3 = s2\<lparr>urls := cat\<rparr> in
                               case py_get access ''user'' (JObj []) of
                                 Inl err \<Rightarrow> (Some err, s3)
                               | Inr u \<Rightarrow> (None, s3\<lparr>auth_user_info := u\<rparr>)))))))"

definition authenticate_2_0_with_body_request :: "json \<Rightarrow> http_request" where
  "authenticate_2_0_with_body_request reqbody =
     \<lparr>req_action = ''/v2.0/tokens'', req_method = ''POST'',
      req_headers = [(''Content-Type'', ''application/json'')],
      req_data = Some reqbody\<rparr>"

definition authenticate_2_0_with_body_response :: "env \<Rightarrow> auth_conn \<Rightarrow> response \<Rightarrow> error option \<times> auth_conn" where
  "authenticate_2_0_with_body_response e s resp =
     (if status resp = 401 then (Some InvalidCredsError, s)
      else if status resp \<notin> set [200, 203] then
        (Some (MalformedResponseError ''Malformed response''
           (Body (''code: '' @ str_int (status resp) @ '' body: '' @ body resp))), s)
      else
        (case json_loads e (body resp) of
           None \<Rightarrow> (Some (MalformedResponseError ''Failed to parse JSON'' CaughtException), s)
         | Some b \<Rightarrow> except_KeyError (authenticate_2_0_fields e s b)))"

definition authenticate_2_0_with_body :: "env \<Rightarrow> auth_conn \<Rightarrow> json \<Rightarrow> error option \<times> auth_conn \<times> http_request list" where
  "authenticate_2_0_with_body e s reqbody =
     handshake e s (authenticate_2_0_with_body_request reqbody) authenticate_2_0_with_body_response"

text \<open>\<^verbatim>\<open>if self.tenant_name: data['auth']['tenantName'] = self.tenant_name\<close>.\<close>

definition tenant_entry :: "auth_conn \<Rightarrow> (string \<times> json) list" where
  "tenant_entry s =
     (case tenant_name s of
        None \<Rightarrow> []
      | Some t \<Rightarrow> if t \<noteq> [] then [(''tenantName'', JStr t)] else [])"

definition apikey_data :: "auth_conn \<Rightarrow> json" where
  "apikey_data s =
     JObj [(''auth'', JObj ((''RAX-KSKEY:apiKeyCredentials'',
              JObj [(''username'', JStr (user_id s)), (''apiKey'', JStr (key s))])
            # tenant_entry s))]"

definition authenticate_2_0_with_apikey :: "env \<Rightarrow> auth_conn \<Rightarrow> error option \<times> auth_conn \<times> http_request list" where
  "authenticate_2_0_with_apikey e s = authenticate_2_0_with_body e s (apikey_data s)"

definition password_data :: "auth_conn \<Rightarrow> json" where
  "password_data s =
     JObj [(''auth'', JObj ((''passwordCredentials'',
              JObj [(''username'', JStr (user_id s)), (''password'', JStr (key s))])
            # tenant_entry s))]"

definition authenticate_2_0_with_password :: "env \<Rightarrow> auth_conn \<Rightarrow> error option \<times> auth_conn \<times> http_request list" where
  "authenticate_2_0_with_password e s = authenticate_2_0_with_body e s (password_data s)"

text \<open>\<^verbatim>\<open>authenticate(force)\<close>: the outcome (\<open>None\<close> when it returns \<^verbatim>\<open>self\<close>), the
  connection as the call leaves it, and the requests it sent.\<close>

definition authenticate :: "env \<Rightarrow> bool \<Rightarrow> auth_conn \<Rightarrow> error option \<times> auth_conn \<times> http_request list" where
  "authenticate e force s =
     (if \<not> force \<and> auth_version s \<in> set AUTH_VERSIONS_WITH_EXPIRES \<and> is_token_valid e s
      then (None, s, [])
      else if auth_version s = ''1.0'' then authenticate_1_0 e s
      else if auth_version s = ''1.1'' then authenticate_1_1 e s
      else if auth_version s = ''2.0'' \<or> auth_version s = ''2.0_apikey''
        then authenticate_2_0_with_apikey e s
      else if auth_version s = ''2.0_password'' then authenticate_2_0_with_password e s
      else (Some (LibcloudError ''Unsupported Auth Version requested''), s, []))"

section \<open>The Auth Response Decoder\<close>

text \<open>\<^verbatim>\<open>OpenStackAuthResponse.parse_body\<close>.  The header is looked up under the two
  spellings the source names, in its order; \<^verbatim>\<open>content_type.split(';')[0]\<close> is the
  text before the first semicolon.\<close>

definition type_token :: "string \<Rightarrow> string" where
  "type_token content_type =
     (if CHR '';'' \<in> set content_type then takeWhile (\<lambda>c. c \<noteq> CHR '';'') content_type
      else content_type)"

definition decode_body :: "env \<Rightarrow> response \<Rightarrow> string \<Rightarrow> error + json" where
  "decode_body e resp ct =
     (let content_type = type_token ct in
      if content_type = ''application/json'' then
        (case json_loads e (body resp) of
           None \<Rightarrow> Inl (MalformedResponseError ''Failed to parse JSON'' (Body (body resp)))
         | Some d \<Rightarrow> Inr d)
      else if content_type = ''text/plain'' then Inr (JStr (body resp))
      else Inr (JStr (body resp)))"

definition parse_body :: "env \<Rightarrow> response \<Rightarrow> error + json" where
  "parse_body e resp =
     (if body resp = [] then Inr JNull
      else case map_of (headers resp) ''content-type'' of
        Some ct \<Rightarrow> decode_body e resp ct
      | None \<Rightarrow>
          (case map_of (headers resp) ''Content-Type'' of
             Some ct \<Rightarrow> decode_body e resp ct
           | None \<Rightarrow> Inl (LibcloudError ''Missing content-type header'')))"

text \<open>\<^verbatim>\<open>OpenStackAuthResponse.success\<close>.\<close>

definition success :: "response \<Rightarrow> bool" where
  "success r = True"

text \<open>\<^verbatim>\<open>str.lower()\<close> on the ASCII letters.\<close>

definition lower_char :: "char \<Rightarrow> char" where
  "lower_char c =
     (case map_of (zip ''ABCDEFGHIJKLMNOPQRSTUVWXYZ'' ''abcdefghijklmnopqrstuvwxyz'') c of
        None \<Rightarrow> c
      | Some l \<Rightarrow> l)"

definition lower_str :: "string \<Rightarrow> string" where
  "lower_str s = map lower_char s"

text \<open>
  Modelled from the spec: \<^verbatim>\<open>lowercase_keys\<close>, which the response constructor of
  \<^verbatim>\<open>libcloud/common/base.py\<close> (not among the sources) applies to the header dict.  The
  spec's response parsing boundary consumes headers whose names are variably cased,
  and its decoder checks for the content-type header case-sensitively, then
  case-insensitively: every header name is lower-cased, and of two names that fall
  together the later one gives the value.
\<close>

definition lowercase_keys :: "(string \<times> 'v) list \<Rightarrow> (string \<times> 'v) list" where
  "lowercase_keys d =
     fold (\<lambda>kv acc. AList.update (lower_str (fst kv)) (snd kv) acc) (AList.clearjunk d) []"

text \<open>
  Modelled from the spec: the value the response constructor of
  \<^verbatim>\<open>libcloud/common/base.py\<close> stores as \<^verbatim>\<open>self.object\<close>, which is \<^verbatim>\<open>parse_body()\<close> on the
  response with its header names lower-cased.  This is the Auth Response Decoder as
  the spec has it: given an HTTP response, produce a parsed value.
\<close>

definition response_object :: "env \<Rightarrow> response \<Rightarrow> error + json" where
  "response_object e raw = parse_body e (raw\<lparr>headers := lowercase_keys (headers raw)\<rparr>)"

text \<open>
  Modelled from the spec: the constructor of the response class, run by
  \<^verbatim>\<open>self.request\<close> on what the transport answers (\<^verbatim>\<open>responseCls = OpenStackAuthResponse\<close>).
  In the spec's control flow every response of the Auth Client goes through the
  decoder: the constructor lower-cases the header names, asks \<^verbatim>\<open>success()\<close> and
  decodes the body, and what the decoder raises reaches the caller of
  \<^verbatim>\<open>self.request\<close>.
\<close>

definition OpenStackAuthResponse :: "env \<Rightarrow> response \<Rightarrow> error + response" where
  "OpenStackAuthResponse e raw =
     (let r = raw\<lparr>headers := lowercase_keys (headers raw)\<rparr> in
      if \<not> success r then Inl (ExternalError ''Exception'')
      else case parse_body e r of
        Inl err \<Rightarrow> Inl err
      | Inr obj \<Rightarrow> Inr r)"

section \<open>The Service Catalog\<close>

text \<open>
  \<^verbatim>\<open>_service_catalog\<close> is a dict of dicts: service name, then region, then the list
  of endpoints (auth 1.x), with the service type on top for auth 2.0.  Which of the
  two it is follows from \<^verbatim>\<open>_auth_version\<close>, by the test \<^verbatim>\<open>__init__\<close> and every
  lookup repeat.  Dicts are association lists in insertion order, written with
  \<open>AList.update\<close> (replace in place, or append a new key).
\<close>

type_synonym region_index = "(hkey \<times> json list) list"
type_synonym name_index = "(hkey \<times> region_index) list"
type_synonym type_index = "(hkey \<times> name_index) list"

datatype catalog_index = IndexV1 name_index | IndexV2 type_index

record service_catalog =
  sc_auth_version :: string
  sc_index :: catalog_index

definition AUTH_API_VERSION :: string where
  "AUTH_API_VERSION = ''1.1''"

text \<open>\<^verbatim>\<open>d.get(k, {})\<close> and \<^verbatim>\<open>d.get(k, [])\<close>; also \<^verbatim>\<open>d[k]\<close> right after \<open>k\<close> was put
  into \<open>d\<close>.\<close>

definition dict_get :: "('k \<times> 'v list) list \<Rightarrow> 'k \<Rightarrow> 'v list" where
  "dict_get d k = (case map_of d k of None \<Rightarrow> [] | Some v \<Rightarrow> v)"

text \<open>\<^verbatim>\<open>if k not in d: d[k] = {}\<close> (or \<^verbatim>\<open>[]\<close>).\<close>

definition setdefault_empty :: "'k \<Rightarrow> ('k \<times> 'v list) list \<Rightarrow> ('k \<times> 'v list) list" where
  "setdefault_empty k d = (if map_of d k = None then AList.update k [] d else d)"

text \<open>The body of the endpoint loop, the same in both parsers: read the region, make
  its list if it is new, append the endpoint.\<close>

definition add_endpoint :: "region_index \<Rightarrow> json \<Rightarrow> error + region_index" where
  "add_endpoint catalog endpoint =
     (case py_get endpoint ''region'' JNull of
        Inl err \<Rightarrow> Inl err
      | Inr rv \<Rightarrow>
          (case hash_key rv of
             Inl err \<Rightarrow> Inl err
           | Inr region \<Rightarrow>
               (let catalog1 = setdefault_empty region catalog
                in Inr (AList.update region (dict_get catalog1 region @ [endpoint]) catalog1))))"

fun parse_endpoints :: "region_index \<Rightarrow> json list \<Rightarrow> error + region_index" where
  "parse_endpoints catalog [] = Inr catalog"
| "parse_endpoints catalog (endpoint # rest) =
     (case add_endpoint catalog endpoint of
        Inl err \<Rightarrow> Inl err
      | Inr catalog1 \<Rightarrow> parse_endpoints catalog1 rest)"

text \<open>\<^verbatim>\<open>_parse_auth_v1\<close>.\<close>

fun parse_services_v1 :: "name_index \<Rightarrow> (string \<times> json) list \<Rightarrow> error + name_index" where
  "parse_services_v1 cat [] = Inr cat"
| "parse_services_v1 cat ((service, endpoints) # rest) =
     (let cat1 = AList.update (KStr service) [] cat in
      case py_iter endpoints of
        Inl err \<Rightarrow> Inl err
      | Inr eps \<Rightarrow>
          (case parse_endpoints (dict_get cat1 (KStr service)) eps of
             Inl err \<Rightarrow> Inl err
           | Inr regions \<Rightarrow> parse_services_v1 (AList.update (KStr service) regions cat1) rest))"

definition parse_auth_v1 :: "json \<Rightarrow> error + name_index" where
  "parse_auth_v1 service_catalog =
     (case py_items service_catalog of
        Inl err \<Rightarrow> Inl err
      | Inr items \<Rightarrow> parse_services_v1 [] items)"

text \<open>\<^verbatim>\<open>_parse_auth_v2\<close>: one service record.\<close>

definition parse_service_v2 :: "type_index \<Rightarrow> json \<Rightarrow> error + type_index" where
  "parse_service_v2 cat service =
     (case py_getitem service ''type'' of
        Inl err \<Rightarrow> Inl err
      | Inr tv \<Rightarrow>
     (case py_get service ''name'' JNull of
        Inl err \<Rightarrow> Inl err
      | Inr nv \<Rightarrow>
     (case hash_key tv of
        Inl err \<Rightarrow> Inl err
      | Inr service_type \<Rightarrow>
     (let cat1 = setdefault_empty service_type cat in
      case hash_key nv of
        Inl err \<Rightarrow> Inl err
      | Inr service_name \<Rightarrow>
     (let names1 = setdefault_empty service_name (dict_get cat1 service_type) in
      case py_get service ''endpoints'' (JArr []) of
        Inl err \<Rightarrow> Inl err
      | Inr epsv \<Rightarrow>
     (case py_iter epsv of
        Inl err \<Rightarrow> Inl err
      | Inr eps \<Rightarrow>
     (case parse_endpoints (dict_get names1 service_name) eps of
        Inl err \<Rightarrow> Inl err
      | Inr regions \<Rightarrow>
          Inr (AList.update service_type (AList.update service_name regions names1) cat1))))))))"

fun parse_services_v2 :: "type_index \<Rightarrow> json list \<Rightarrow> error + type_index" where
  "parse_services_v2 cat [] = Inr cat"
| "parse_services_v2 cat (service # rest) =
     (case parse_service_v2 cat service of
        Inl err \<Rightarrow> Inl err
      | Inr cat1 \<Rightarrow> parse_services_v2 cat1 rest)"

definition parse_auth_v2 :: "json \<Rightarrow> error + type_index" where
  "parse_auth_v2 service_catalog =
     (case py_iter service_catalog of
        Inl err \<Rightarrow> Inl err
      | Inr services \<Rightarrow> parse_services_v2 [] services)"

text \<open>\<^verbatim>\<open>OpenStackServiceCatalog.__init__\<close>; an exception leaves no catalog.\<close>

definition OpenStackServiceCatalog :: "json \<Rightarrow> string option \<Rightarrow> error + service_catalog" where
  "OpenStackServiceCatalog service_catalog ex_force_auth_version =
     (let v = (case ex_force_auth_version of
                 None \<Rightarrow> AUTH_API_VERSION
               | Some x \<Rightarrow> if x \<noteq> [] then x else AUTH_API_VERSION)
      in if str_contains ''2.0'' v then
           (case parse_auth_v2 service_catalog of
              Inl err \<Rightarrow> Inl err
            | Inr cat \<Rightarrow> Inr \<lparr>sc_auth_version = v, sc_index = IndexV2 cat\<rparr>)
         else if str_contains ''1.1'' v \<or> str_contains ''1.0'' v then
           (case parse_auth_v1 service_catalog of
              Inl err \<Rightarrow> Inl err
            | Inr cat \<Rightarrow> Inr \<lparr>sc_auth_version = v, sc_index = IndexV1 cat\<rparr>)
         else Inl (LibcloudError (''auth version '' @ [CHR 0x22] @ v @ [CHR 0x22] @ '' not supported'')))"

text \<open>The first lines of \<^verbatim>\<open>get_endpoints\<close> and \<^verbatim>\<open>get_endpoint\<close>: the region dict of a
  service.  A version that passes neither test leaves the local variable unbound;
  an index of the other version's shape is what \<^verbatim>\<open>__init__\<close> never builds.\<close>

definition service_regions :: "service_catalog \<Rightarrow> hkey \<Rightarrow> hkey \<Rightarrow> error + region_index" where
  "service_regions c service_type name =
     (if str_contains ''2.0'' (sc_auth_version c) then
        (case sc_index c of
           IndexV2 cat \<Rightarrow> Inr (dict_get (dict_get cat service_type) name)
         | IndexV1 _ \<Rightarrow> Inl AttributeError)
      else if str_contains ''1.1'' (sc_auth_version c) \<or> str_contains ''1.0'' (sc_auth_version c) then
        (case sc_index c of
           IndexV1 cat \<Rightarrow> Inr (dict_get cat name)
         | IndexV2 _ \<Rightarrow> Inl AttributeError)
      else Inl UnboundLocalError)"

text \<open>\<^verbatim>\<open>for regionName, values in endpoints.items(): eps.append(values[0])\<close>.\<close>

fun first_of_each :: "region_index \<Rightarrow> error + json list" where
  "first_of_each [] = Inr []"
| "first_of_each ((regionName, values) # rest) =
     (case values of
        [] \<Rightarrow> Inl IndexError
      | v # _ \<Rightarrow> (case first_of_each rest of Inl err \<Rightarrow> Inl err | Inr eps \<Rightarrow> Inr (v # eps)))"

definition get_endpoints :: "service_catalog \<Rightarrow> hkey \<Rightarrow> hkey \<Rightarrow> error + json list" where
  "get_endpoints c service_type name =
     (case service_regions c service_type name of
        Inl err \<Rightarrow> Inl err
      | Inr endpoints \<Rightarrow> first_of_each endpoints)"

definition get_endpoint :: "service_catalog \<Rightarrow> hkey \<Rightarrow> hkey \<Rightarrow> hkey \<Rightarrow> error + json" where
  "get_endpoint c service_type name region =
     (case service_regions c service_type name of
        Inl err \<Rightarrow> Inl err
      | Inr regions \<Rightarrow>
          (let endpoint = dict_get regions region
           in if length endpoint = 1 then Inr (endpoint ! 0) else Inr (JObj [])))"

text \<open>\<^verbatim>\<open>k in obj\<close> for a string \<open>k\<close>: a key of a dict, an element of a list, a
  substring of a string; the other values raise TypeError.\<close>

fun py_contains :: "json \<Rightarrow> string \<Rightarrow> error + bool" where
  "py_contains (JObj kvs) k = Inr (map_of kvs k \<noteq> None)"
| "py_contains (JArr xs) k = Inr (JStr k \<in> set xs)"
| "py_contains (JStr s) k = Inr (str_contains k s)"
| "py_contains _ k = Inl TypeError"

fun public_urls :: "json list \<Rightarrow> error + json list" where
  "public_urls [] = Inr []"
| "public_urls (endpoint # rest) =
     (case py_contains endpoint ''publicURL'' of
        Inl err \<Rightarrow> Inl err
      | Inr has \<Rightarrow>
          if has then
            (case py_getitem endpoint ''publicURL'' of
               Inl err \<Rightarrow> Inl err
             | Inr u \<Rightarrow> (case public_urls rest of Inl err \<Rightarrow> Inl err | Inr us \<Rightarrow> Inr (u # us)))
          else public_urls rest)"

definition get_public_urls :: "service_catalog \<Rightarrow> hkey \<Rightarrow> hkey \<Rightarrow> error + json list" where
  "get_public_urls c service_type name =
     (case get_endpoints c service_type name of
        Inl err \<Rightarrow> Inl err
      | Inr endpoints \<Rightarrow> public_urls endpoints)"

section \<open>The Driver Argument Adapter\<close>

text \<open>
  \<^verbatim>\<open>OpenStackDriverMixin\<close>.  An option value is \<open>None\<close> for Python's \<^verbatim>\<open>None\<close> and
  \<open>Some v\<close> for anything else; \<open>tr v\<close> is the truth value Python gives \<open>v\<close>.  The
  instance's attributes and the keyword arguments are dicts.
\<close>

definition EXTENSTION_ARGUMENTS :: "string list" where
  "EXTENSTION_ARGUMENTS =
     [''ex_force_base_url'', ''ex_force_auth_token'', ''ex_force_auth_url'',
      ''ex_force_auth_version'', ''ex_tenant_name'', ''ex_force_service_type'',
      ''ex_force_service_name'', ''ex_force_service_region'', ''ex_auth_connection'']"

definition get_argument_pairs :: "(string \<times> string) list" where
  "get_argument_pairs = map (\<lambda>argument_name. (argument_name, ''_'' @ argument_name)) EXTENSTION_ARGUMENTS"

text \<open>\<^verbatim>\<open>d.get(k, None)\<close> and \<^verbatim>\<open>getattr(self, k, None)\<close>.\<close>

definition get_or_none :: "(string \<times> 'v option) list \<Rightarrow> string \<Rightarrow> 'v option" where
  "get_or_none d k = (case map_of d k of None \<Rightarrow> None | Some v \<Rightarrow> v)"

fun mixin_init_loop :: "(string \<times> string) list \<Rightarrow> (string \<times> 'v option) list \<Rightarrow>
    (string \<times> 'v option) list \<Rightarrow> (string \<times> 'v option) list" where
  "mixin_init_loop [] kwargs attrs = attrs"
| "mixin_init_loop ((argument_name, attribute_name) # pairs) kwargs attrs =
     (case get_or_none kwargs argument_name of
        None \<Rightarrow> mixin_init_loop pairs kwargs attrs
      | Some v \<Rightarrow> mixin_init_loop pairs kwargs (AList.update attribute_name (Some v) attrs))"

text \<open>\<^verbatim>\<open>__init__(**kwargs)\<close> on an instance whose attributes are \<open>attrs\<close>.\<close>

definition OpenStackDriverMixin :: "(string \<times> 'v option) list \<Rightarrow> (string \<times> 'v option) list \<Rightarrow>
    (string \<times> 'v option) list" where
  "OpenStackDriverMixin attrs kwargs = mixin_init_loop get_argument_pairs kwargs attrs"

fun connection_kwargs_loop :: "('v \<Rightarrow> bool) \<Rightarrow> (string \<times> string) list \<Rightarrow>
    (string \<times> 'v option) list \<Rightarrow> (string \<times> 'v) list \<Rightarrow> (string \<times> 'v) list" where
  "connection_kwargs_loop tr [] attrs result = result"
| "connection_kwargs_loop tr ((argument_name, attribute_name) # pairs) attrs result =
     (case get_or_none attrs attribute_name of
        None \<Rightarrow> connection_kwargs_loop tr pairs attrs result
      | Some v \<Rightarrow>
          if \<not> tr v then connection_kwargs_loop tr pairs attrs result
          else connection_kwargs_loop tr pairs attrs (AList.update argument_name v result))"

definition openstack_connection_kwargs :: "('v \<Rightarrow> bool) \<Rightarrow> (string \<times> 'v option) list \<Rightarrow> (string \<times> 'v) list" where
  "openstack_connection_kwargs tr attrs = connection_kwargs_loop tr get_argument_pairs attrs []"

section \<open>Reading a raw catalog\<close>

text \<open>
  What a raw catalog says, without the index: the key a field gives (an absent field
  counts as \<^verbatim>\<open>None\<close>), the elements of a list, the type, name and endpoints of a
  service record of auth 2.0.
\<close>

definition key_of :: "json \<Rightarrow> hkey option" where
  "key_of v = (case hash_key v of Inl err \<Rightarrow> None | Inr k \<Rightarrow> Some k)"

definition field_or_null :: "json \<Rightarrow> string \<Rightarrow> json" where
  "field_or_null v k = (case py_get v k JNull of Inl err \<Rightarrow> JNull | Inr x \<Rightarrow> x)"

definition endpoint_region :: "json \<Rightarrow> hkey option" where
  "endpoint_region ep = key_of (field_or_null ep ''region'')"

definition elements :: "json \<Rightarrow> json list" where
  "elements v = (case py_iter v of Inl err \<Rightarrow> [] | Inr xs \<Rightarrow> xs)"

definition service_type_of :: "json \<Rightarrow> hkey option" where
  "service_type_of svc = (case py_getitem svc ''type'' of Inl err \<Rightarrow> None | Inr tv \<Rightarrow> key_of tv)"

definition service_name_of :: "json \<Rightarrow> hkey option" where
  "service_name_of svc = key_of (field_or_null svc ''name'')"

definition service_is :: "hkey \<Rightarrow> hkey \<Rightarrow> json \<Rightarrow> bool" where
  "service_is t n svc =
     ((case py_getitem svc ''type'' of Inl err \<Rightarrow> None | Inr tv \<Rightarrow> key_of tv) = Some t
      \<and> key_of (field_or_null svc ''name'') = Some n)"

definition service_endpoints :: "json \<Rightarrow> json list" where
  "service_endpoints svc =
     (case py_get svc ''endpoints'' (JArr []) of Inl err \<Rightarrow> [] | Inr v \<Rightarrow> elements v)"

text \<open>
  A query read by exact keys.  The endpoints listed for a service are those of every
  service record whose type and name are the ones asked for (auth 2.0), or the list
  under the service key asked for (auth 1.x, whose catalogs have no service type and
  whose lookups take none into account).  An argument left out is \<^verbatim>\<open>None\<close>: it is
  equal only to a name or region that is absent or null.  These are not functions of
  the source: they say, on the raw catalog, what the lookups on the index are proved
  to return.
\<close>

definition listed_endpoints :: "string \<Rightarrow> json \<Rightarrow> hkey \<Rightarrow> hkey \<Rightarrow> json list" where
  "listed_endpoints ver raw t n =
     (if str_contains ''2.0'' ver then
        concat (map service_endpoints (filter (service_is t n) (elements raw)))
      else case n of
        KStr name \<Rightarrow> (case py_getitem raw name of Inl err \<Rightarrow> [] | Inr v \<Rightarrow> elements v)
      | _ \<Rightarrow> [])"

text \<open>The endpoints listed for the service whose region is the one asked for.\<close>

definition matching_endpoints :: "string \<Rightarrow> json \<Rightarrow> hkey \<Rightarrow> hkey \<Rightarrow> hkey \<Rightarrow> json list" where
  "matching_endpoints ver raw t n r =
     filter (\<lambda>ep. endpoint_region ep = Some r) (listed_endpoints ver raw t n)"

text \<open>Whether the raw catalog lists the service at all.\<close>

definition service_listed :: "string \<Rightarrow> json \<Rightarrow> hkey \<Rightarrow> hkey \<Rightarrow> bool" where
  "service_listed ver raw t n =
     (if str_contains ''2.0'' ver then list_ex (service_is t n) (elements raw)
      else case n of
        KStr name \<Rightarrow> (case py_getitem raw name of Inl err \<Rightarrow> False | Inr v \<Rightarrow> True)
      | _ \<Rightarrow> False)"

section \<open>The spec's side\<close>

text \<open>
  The definitions named \<open>spec_...\<close> follow the words of the specification, to be
  compared with the functions above.
\<close>

text \<open>
  The condition under which \<^verbatim>\<open>authenticate\<close> answers from the cache: the version
  carries expiry information, a non-empty token is cached, and its expiry minus the
  grace period is after now, both read in whole seconds.
\<close>

definition spec_cache_is_fresh :: "env \<Rightarrow> auth_conn \<Rightarrow> bool" where
  "spec_cache_is_fresh e s =
     (auth_version s \<in> set AUTH_VERSIONS_WITH_EXPIRES \<and> truthy (auth_token s) \<and>
      (case auth_token_expires s of
         None \<Rightarrow> False
       | Some ex \<Rightarrow> utcnow e div 1000000 < (ex - 5 * 1000000) div 1000000))"

text \<open>The success codes of the spec's table of handshakes.\<close>

definition spec_success_codes :: "string \<Rightarrow> int list" where
  "spec_success_codes ver = (if ver = ''1.0'' then [204] else if ver = ''1.1'' then [200] else [200, 203])"

text \<open>One endpoint per region: the first the catalog lists for it, in the order the
  regions first appear.\<close>

fun spec_first_per_region :: "json list \<Rightarrow> json list" where
  "spec_first_per_region [] = []"
| "spec_first_per_region (ep # eps) =
     ep # spec_first_per_region (filter (\<lambda>x. endpoint_region x \<noteq> endpoint_region ep) eps)"

text \<open>The \<open>publicURL\<close> field of an endpoint that has one.\<close>

definition spec_public_url :: "json \<Rightarrow> json option" where
  "spec_public_url ep = (case py_getitem ep ''publicURL'' of Inl err \<Rightarrow> None | Inr u \<Rightarrow> Some u)"

text \<open>
  A query as the spec reads it: its arguments are optional, and one that is left out
  asks for nothing (the spec's example counts an endpoint in DFW and one in ORD as
  two matches of a query without region).  In a 1.x catalog the service type
  dimension collapses.
\<close>

definition spec_asks :: "hkey \<Rightarrow> hkey option \<Rightarrow> bool" where
  "spec_asks q field = (q = KNone \<or> field = Some q)"

definition spec_query_matches :: "string \<Rightarrow> json \<Rightarrow> hkey \<Rightarrow> hkey \<Rightarrow> hkey \<Rightarrow> json list" where
  "spec_query_matches ver raw t n r =
     filter (\<lambda>ep. spec_asks r (endpoint_region ep))
       (if str_contains ''2.0'' ver then
          concat (map service_endpoints
            (filter (\<lambda>svc. spec_asks t (service_type_of svc) \<and> spec_asks n (service_name_of svc))
               (elements raw)))
        else
          concat (map (\<lambda>kv. elements (snd kv))
            (filter (\<lambda>kv. spec_asks n (Some (KStr (fst kv))))
               (case py_items raw of Inl err \<Rightarrow> [] | Inr kvs \<Rightarrow> kvs))))"

text \<open>The service types a raw catalog names; a 1.x catalog names none.\<close>

definition spec_service_types :: "string \<Rightarrow> json \<Rightarrow> hkey option list" where
  "spec_service_types ver raw =
     (if str_contains ''2.0'' ver then map service_type_of (elements raw) else [])"

section \<open>Notions used in the proofs\<close>

text \<open>The response handler \<^verbatim>\<open>authenticate\<close> reaches for a supported version.\<close>

definition on_response :: "string \<Rightarrow> env \<Rightarrow> auth_conn \<Rightarrow> response \<Rightarrow> error option \<times> auth_conn" where
  "on_response ver =
     (if ver = ''1.0'' then authenticate_1_0_response
      else if ver = ''1.1'' then authenticate_1_1_response
      else authenticate_2_0_with_body_response)"

text \<open>\<open>idx\<close> is the region dict the endpoint loop builds from an empty dict over \<open>eps\<close>.\<close>

definition grouped :: "json list \<Rightarrow> region_index \<Rightarrow> bool" where
  "grouped eps idx = (parse_endpoints [] eps = Inr idx)"

section \<open>Example inputs\<close>

text \<open>An environment whose transport answers every request with one response, and
  whose date parser knows one timestamp.\<close>

definition example_parse_date :: "json \<Rightarrow> error + instant" where
  "example_parse_date v =
     (if v = JStr ''2030-01-01T00:00:00Z'' then Inr 1893456000000000
      else Inl (ExternalError ''ParseError''))"

definition replying_env :: "instant \<Rightarrow> response \<Rightarrow> json option \<Rightarrow> env" where
  "replying_env now resp parsed =
     \<lparr>request = (\<lambda>req. Inr resp),
      json_loads = (\<lambda>text. parsed),
      parse_date = example_parse_date,
      utcnow = now,
      str_headers = (\<lambda>hs. concat (map (\<lambda>h. fst h @ '': '' @ snd h @ ''; '') hs))\<rparr>"

definition unauthorized :: response where
  "unauthorized = \<lparr>status = 401, body = ''Unauthorized'', headers = []\<rparr>"

text \<open>A connection with a token and an expiry already cached.\<close>

definition cached_conn :: "string \<Rightarrow> json \<Rightarrow> instant option \<Rightarrow> auth_conn" where
  "cached_conn ver tok ex =
     (OpenStackAuthConnection ver ''user'' ''secret'' None)\<lparr>auth_token := tok, auth_token_expires := ex\<rparr>"

definition no_content :: "(string \<times> string) list \<Rightarrow> response" where
  "no_content hs = \<lparr>status = 204, body = [], headers = hs\<rparr>"

text \<open>Successful 1.1 and 2.0 replies, as \<^verbatim>\<open>json.loads\<close> returns them.\<close>

definition body_1_1 :: json where
  "body_1_1 = JObj [(''auth'', JObj
     [(''token'', JObj [(''id'', JStr ''T1''), (''expires'', JStr ''2030-01-01T00:00:00Z'')]),
      (''serviceCatalog'', JObj [(''cloudFiles'',
          JArr [JObj [(''region'', JStr ''DFW''), (''publicURL'', JStr ''https://dfw'')]])])])]"

definition body_2_0 :: json where
  "body_2_0 = JObj [(''access'', JObj
     [(''token'', JObj [(''id'', JStr ''T2''), (''expires'', JStr ''2030-01-01T00:00:00Z'')]),
      (''serviceCatalog'', JArr [JObj [(''type'', JStr ''compute''), (''name'', JStr ''nova''),
          (''endpoints'', JArr [JObj [(''region'', JStr ''DFW''), (''publicURL'', JStr ''https://dfw'')]])]]),
      (''user'', JObj [(''id'', JStr ''u1'')])])]"

definition ok_response :: response where
  "ok_response = \<lparr>status = 200, body = ''{...}'', headers = [(''content-type'', ''application/json'')]\<rparr>"

definition with_body :: "string \<Rightarrow> (string \<times> string) list \<Rightarrow> response" where
  "with_body b hs = \<lparr>status = 200, body = b, headers = hs\<rparr>"

text \<open>Raw catalogs of auth 2.0: one endpoint per region; a region listed twice; an
  endpoint without \<open>publicURL\<close>.\<close>

definition endpoint_in :: "string \<Rightarrow> string \<Rightarrow> json" where
  "endpoint_in region url = JObj [(''region'', JStr region), (''publicURL'', JStr url)]"

definition nova_catalog :: json where
  "nova_catalog =
     JArr [JObj [(''type'', JStr ''compute''), (''name'', JStr ''nova''),
                 (''endpoints'', JArr [endpoint_in ''DFW'' ''https://dfw'', endpoint_in ''ORD'' ''https://ord''])]]"

definition doubled_catalog :: json where
  "doubled_catalog =
     JArr [JObj [(''type'', JStr ''compute''), (''name'', JStr ''nova''),
                 (''endpoints'', JArr [endpoint_in ''DFW'' ''https://dfw1'', endpoint_in ''ORD'' ''https://ord'',
                                       endpoint_in ''DFW'' ''https://dfw2''])]]"

definition storage_catalog :: json where
  "storage_catalog =
     JArr [JObj [(''type'', JStr ''object-store''),
                 (''endpoints'', JArr [endpoint_in ''DFW'' ''https://files'',
                                       JObj [(''region'', JStr ''ORD''), (''internalURL'', JStr ''https://snet'')]])]]"

text \<open>An environment whose \<^verbatim>\<open>self.request\<close> builds the response object from one raw
  response, and raw responses: plain text, a 401 whose JSON body does not decode, a
  401 without content type.\<close>

definition wire_env :: "instant \<Rightarrow> response \<Rightarrow> json option \<Rightarrow> env" where
  "wire_env now raw parsed =
     (replying_env now raw parsed)
       \<lparr>request := (\<lambda>req. OpenStackAuthResponse (replying_env now raw parsed) raw)\<rparr>"

definition plain_text :: "int \<Rightarrow> string \<Rightarrow> response" where
  "plain_text code b = \<lparr>status = code, body = b, headers = [(''Content-Type'', ''text/plain'')]\<rparr>"

definition bad_json_401 :: response where
  "bad_json_401 = \<lparr>status = 401, body = ''<html>denied</html>'',
                    headers = [(''Content-Type'', ''application/json'')]\<rparr>"

definition untyped_401 :: response where
  "untyped_401 = \<lparr>status = 401, body = ''denied'', headers = []\<rparr>"

text \<open>Catalogs with their indexes: a single endpoint; the two regions of
  \<open>nova_catalog\<close>; a 1.1 catalog.\<close>

definition dfw_catalog :: json where
  "dfw_catalog =
     JArr [JObj [(''type'', JStr ''compute''), (''name'', JStr ''nova''),
                 (''endpoints'', JArr [endpoint_in ''DFW'' ''https://dfw''])]]"

definition dfw_index :: service_catalog where
  "dfw_index = \<lparr>sc_auth_version = ''2.0'', sc_index = IndexV2
     [(KStr ''compute'', [(KStr ''nova'', [(KStr ''DFW'', [endpoint_in ''DFW'' ''https://dfw''])])])]\<rparr>"

definition nova_index :: service_catalog where
  "nova_index = \<lparr>sc_auth_version = ''2.0'', sc_index = IndexV2
     [(KStr ''compute'', [(KStr ''nova'',
        [(KStr ''DFW'', [endpoint_in ''DFW'' ''https://dfw'']),
         (KStr ''ORD'', [endpoint_in ''ORD'' ''https://ord''])])])]\<rparr>"

definition files_catalog :: json where
  "files_catalog = JObj [(''cloudFiles'', JArr [endpoint_in ''DFW'' ''https://files''])]"

definition files_index :: service_catalog where
  "files_index = \<lparr>sc_auth_version = ''1.1'', sc_index = IndexV1
     [(KStr ''cloudFiles'', [(KStr ''DFW'', [endpoint_in ''DFW'' ''https://files''])])]\<rparr>"

section \<open>Token validity\<close>

lemma utctimetuple_shift: "utctimetuple (t + timedelta_seconds n) = utctimetuple t + n"
  by (simp add: utctimetuple_def timedelta_seconds_def)

lemma is_token_valid_iff:
  "is_token_valid e s =
     (truthy (auth_token s) \<and>
      (\<exists>ex. auth_token_expires s = Some ex \<and>
            utctimetuple (utcnow e) < utctimetuple (ex - timedelta_seconds 5)))"
  by (simp add: is_token_valid_def AUTH_TOKEN_EXPIRES_GRACE_SECONDS_def Let_def split: option.splits)

text \<open>
  When the expiry is a whole number of seconds, comparing the truncated tuples is
  comparing the instants.
\<close>

lemma is_token_valid_whole_second_expiry:
  assumes "auth_token_expires s = Some ex" and "ex mod 1000000 = 0"
  shows "is_token_valid e s = (truthy (auth_token s) \<and> utcnow e < ex - 5 * 1000000)"
proof -
  obtain k where k: "ex = k * 1000000"
    using assms(2) by (auto elim: dvdE simp: mod_eq_0_iff_dvd mult.commute)
  have "(utcnow e div 1000000 < k - 5) = (utcnow e < k * 1000000 - 5000000)"
    by linarith
  then show ?thesis
    using assms(1) by (simp add: is_token_valid_iff utctimetuple_def timedelta_seconds_def k algebra_simps)
qed

text \<open>
  C1, amended: the token is valid if and only if it is truthy (a string: non-empty),
  the expiry is known, and the expiry minus 5 seconds, cut to whole seconds, is
  strictly after the current UTC instant cut to whole seconds.  An expiry exactly 5
  seconds from now is invalid; an expiry 6 seconds from now is valid for a truthy
  token.
\<close>

theorem is_token_valid_whole_seconds:
  "is_token_valid e s =
     (truthy (auth_token s) \<and>
      (\<exists>ex. auth_token_expires s = Some ex \<and>
            utcnow e div 1000000 < (ex - 5 * 1000000) div 1000000))
   \<and> is_token_valid e (s\<lparr>auth_token_expires := Some (utcnow e + 5 * 1000000)\<rparr>) = False
   \<and> is_token_valid e (s\<lparr>auth_token_expires := Some (utcnow e + 6 * 1000000)\<rparr>) = truthy (auth_token s)"
proof -
  have five: "utctimetuple (utcnow e + 5 * 1000000 - timedelta_seconds 5) = utctimetuple (utcnow e)"
    by (simp add: timedelta_seconds_def)
  have six: "utctimetuple (utcnow e + 6 * 1000000 - timedelta_seconds 5) = utctimetuple (utcnow e) + 1"
    using utctimetuple_shift [of "utcnow e" 1] by (simp add: timedelta_seconds_def algebra_simps)
  show ?thesis
    using five six
    by (simp add: is_token_valid_iff) (simp add: utctimetuple_def timedelta_seconds_def)
qed

text \<open>
  C1, as stated, fails: a token that expires 5.3 seconds after the current instant
  (now 10.2 s, expiry 15.5 s) has its expiry minus 5 seconds strictly after now, and
  \<^verbatim>\<open>_is_token_valid\<close> rejects it, both tuples reading second 10.
\<close>

theorem is_token_valid_counterexample:
  "truthy (auth_token (cached_conn ''1.1'' (JStr ''tok'') (Some 15500000)))
   \<and> auth_token_expires (cached_conn ''1.1'' (JStr ''tok'') (Some 15500000)) = Some 15500000
   \<and> utcnow (replying_env 10200000 unauthorized None) < 15500000 - 5 * 1000000
   \<and> \<not> is_token_valid (replying_env 10200000 unauthorized None)
         (cached_conn ''1.1'' (JStr ''tok'') (Some 15500000))"
  by (simp add: is_token_valid_iff utctimetuple_def timedelta_seconds_def replying_env_def
      cached_conn_def OpenStackAuthConnection_def)

section \<open>Caching and dispatch\<close>

lemma handshake_log: "snd (snd (handshake e s req f)) = [req]"
  by (simp add: handshake_def split: sum.splits prod.splits)

lemma handshake_reply:
  "request e req = Inr resp \<Longrightarrow> handshake e s req f = (fst (f e s resp), snd (f e s resp), [req])"
  by (simp add: handshake_def split: prod.splits)

lemma cache_is_fresh_iff:
  "spec_cache_is_fresh e s = (auth_version s \<in> set AUTH_VERSIONS_WITH_EXPIRES \<and> is_token_valid e s)"
  by (auto simp: spec_cache_is_fresh_def is_token_valid_iff utctimetuple_def timedelta_seconds_def
      split: option.splits)

text \<open>
  C2, amended: with \<^verbatim>\<open>force=False\<close>, a version that carries expiry information,
  a non-empty cached token and an expiry whose value minus 5 seconds, cut to whole
  seconds, is strictly after the current instant cut to whole seconds, \<^verbatim>\<open>authenticate\<close>
  sends nothing and returns the connection unchanged.  Otherwise a supported version
  sends exactly one request, the one of its handshake (version 1.0, which carries no
  expiry, always does).  An unsupported version fails with the library's error and
  sends nothing.
\<close>

theorem authenticate_cache_or_one_handshake:
  "(spec_cache_is_fresh e s \<longrightarrow> authenticate e False s = (None, s, []))
   \<and> (auth_version s = ''1.0'' \<longrightarrow>
        snd (snd (authenticate e False s)) = [authenticate_1_0_request s])
   \<and> (\<not> spec_cache_is_fresh e s \<and> auth_version s = ''1.1'' \<longrightarrow>
        snd (snd (authenticate e False s)) = [authenticate_1_1_request s])
   \<and> (\<not> spec_cache_is_fresh e s \<and> (auth_version s = ''2.0'' \<or> auth_version s = ''2.0_apikey'') \<longrightarrow>
        snd (snd (authenticate e False s)) = [authenticate_2_0_with_body_request (apikey_data s)])
   \<and> (\<not> spec_cache_is_fresh e s \<and> auth_version s = ''2.0_password'' \<longrightarrow>
        snd (snd (authenticate e False s)) = [authenticate_2_0_with_body_request (password_data s)])
   \<and> (auth_version s \<notin> {''1.0'', ''1.1'', ''2.0'', ''2.0_apikey'', ''2.0_password''} \<longrightarrow>
        authenticate e False s = (Some (LibcloudError ''Unsupported Auth Version requested''), s, []))"
proof -
  have fresh: "spec_cache_is_fresh e s \<Longrightarrow> authenticate e False s = (None, s, [])"
    by (simp add: cache_is_fresh_iff authenticate_def)
  have v10: "auth_version s = ''1.0'' \<Longrightarrow>
      snd (snd (authenticate e False s)) = [authenticate_1_0_request s]"
    by (simp add: authenticate_def AUTH_VERSIONS_WITH_EXPIRES_def authenticate_1_0_def handshake_log)
  have v11: "\<not> spec_cache_is_fresh e s \<Longrightarrow> auth_version s = ''1.1'' \<Longrightarrow>
      snd (snd (authenticate e False s)) = [authenticate_1_1_request s]"
    by (simp add: cache_is_fresh_iff authenticate_def authenticate_1_1_def handshake_log)
  have v20: "\<not> spec_cache_is_fresh e s \<Longrightarrow> auth_version s = ''2.0'' \<or> auth_version s = ''2.0_apikey'' \<Longrightarrow>
      snd (snd (authenticate e False s)) = [authenticate_2_0_with_body_request (apikey_data s)]"
    by (auto simp: cache_is_fresh_iff authenticate_def authenticate_2_0_with_apikey_def
        authenticate_2_0_with_body_def handshake_log)
  have v2p: "\<not> spec_cache_is_fresh e s \<Longrightarrow> auth_version s = ''2.0_password'' \<Longrightarrow>
      snd (snd (authenticate e False s)) = [authenticate_2_0_with_body_request (password_data s)]"
    by (simp add: cache_is_fresh_iff authenticate_def authenticate_2_0_with_password_def
        authenticate_2_0_with_body_def handshake_log)
  have other: "auth_version s \<notin> {''1.0'', ''1.1'', ''2.0'', ''2.0_apikey'', ''2.0_password''} \<Longrightarrow>
      authenticate e False s = (Some (LibcloudError ''Unsupported Auth Version requested''), s, [])"
    by (simp add: authenticate_def AUTH_VERSIONS_WITH_EXPIRES_def)
  show ?thesis
    using fresh v10 v11 v20 v2p other by blast
qed

text \<open>A fresh 1.1 token answered from the cache; versions 1.0, 1.1 (stale), 2.0 and
  2.0_password each sending their request; version 3.0 refused.\<close>

theorem authenticate_cache_or_one_handshake_witness:
  "authenticate (replying_env 0 unauthorized None) False (cached_conn ''1.1'' (JStr ''tok'') (Some 99000000))
     = (None, cached_conn ''1.1'' (JStr ''tok'') (Some 99000000), [])
   \<and> snd (snd (authenticate (replying_env 0 unauthorized None) False (cached_conn ''1.0'' JNull None)))
     = [authenticate_1_0_request (cached_conn ''1.0'' JNull None)]
   \<and> snd (snd (authenticate (replying_env 0 unauthorized None) False (cached_conn ''1.1'' (JStr ''tok'') (Some 3000000))))
     = [authenticate_1_1_request (cached_conn ''1.1'' (JStr ''tok'') (Some 3000000))]
   \<and> snd (snd (authenticate (replying_env 0 unauthorized None) False (cached_conn ''2.0'' JNull None)))
     = [authenticate_2_0_with_body_request (apikey_data (cached_conn ''2.0'' JNull None))]
   \<and> snd (snd (authenticate (replying_env 0 unauthorized None) False (cached_conn ''2.0_password'' JNull None)))
     = [authenticate_2_0_with_body_request (password_data (cached_conn ''2.0_password'' JNull None))]
   \<and> authenticate (replying_env 0 unauthorized None) False (cached_conn ''3.0'' JNull None)
     = (Some (LibcloudError ''Unsupported Auth Version requested''), cached_conn ''3.0'' JNull None, [])"
  using authenticate_cache_or_one_handshake
          [of "replying_env 0 unauthorized None" "cached_conn ''1.1'' (JStr ''tok'') (Some 99000000)"]
        authenticate_cache_or_one_handshake
          [of "replying_env 0 unauthorized None" "cached_conn ''1.0'' JNull None"]
        authenticate_cache_or_one_handshake
          [of "replying_env 0 unauthorized None" "cached_conn ''1.1'' (JStr ''tok'') (Some 3000000)"]
        authenticate_cache_or_one_handshake
          [of "replying_env 0 unauthorized None" "cached_conn ''2.0'' JNull None"]
        authenticate_cache_or_one_handshake
          [of "replying_env 0 unauthorized None" "cached_conn ''2.0_password'' JNull None"]
        authenticate_cache_or_one_handshake
          [of "replying_env 0 unauthorized None" "cached_conn ''3.0'' JNull None"]
  by (simp add: spec_cache_is_fresh_def AUTH_VERSIONS_WITH_EXPIRES_def replying_env_def cached_conn_def
      OpenStackAuthConnection_def)

text \<open>
  A connection set up for version 1.0 keeps its version and is never given an expiry:
  for it the cache condition of the claim never holds.
\<close>

lemma version_1_0_holds_no_expiry:
  assumes "auth_version s = ''1.0''"
  shows "auth_version (fst (snd (authenticate e force s))) = ''1.0''
         \<and> auth_token_expires (fst (snd (authenticate e force s))) = auth_token_expires s"
  using assms
  by (simp add: authenticate_def AUTH_VERSIONS_WITH_EXPIRES_def authenticate_1_0_def handshake_def
      authenticate_1_0_response_def Let_def split: sum.splits)

text \<open>
  C2, as stated, fails: with version 1.1 and a cached token whose expiry (15.5 s)
  minus 5 seconds is strictly after now (10.2 s), \<^verbatim>\<open>authenticate(force=False)\<close> sends
  the 1.1 handshake request; it also does when the cached token is the empty string,
  however far away its expiry.
\<close>

theorem authenticate_cache_counterexample:
  "auth_version (cached_conn ''1.1'' (JStr ''tok'') (Some 15500000)) = ''1.1''
   \<and> auth_token_expires (cached_conn ''1.1'' (JStr ''tok'') (Some 15500000)) = Some 15500000
   \<and> utcnow (replying_env 10200000 unauthorized None) < 15500000 - 5 * 1000000
   \<and> snd (snd (authenticate (replying_env 10200000 unauthorized None) False
                 (cached_conn ''1.1'' (JStr ''tok'') (Some 15500000))))
       = [authenticate_1_1_request (cached_conn ''1.1'' (JStr ''tok'') (Some 15500000))]
   \<and> auth_token (cached_conn ''1.1'' (JStr '''') (Some 99000000)) = JStr ''''
   \<and> utcnow (replying_env 10200000 unauthorized None) < 99000000 - 5 * 1000000
   \<and> snd (snd (authenticate (replying_env 10200000 unauthorized None) False
                 (cached_conn ''1.1'' (JStr '''') (Some 99000000))))
       = [authenticate_1_1_request (cached_conn ''1.1'' (JStr '''') (Some 99000000))]"
  by (simp add: authenticate_def is_token_valid_iff utctimetuple_def timedelta_seconds_def
      authenticate_1_1_def handshake_log replying_env_def cached_conn_def OpenStackAuthConnection_def)

section \<open>Handshake failures by status\<close>

lemma starts_with_append: "starts_with xs (xs @ ys)"
  by (induction xs) auto

lemma str_contains_prefix: "str_contains xs (xs @ ys)"
  by (cases "xs @ ys") (auto simp: starts_with_append simp flip: append_Cons dest: sym)

lemma str_contains_append_left: "str_contains xs ys \<Longrightarrow> str_contains xs (zs @ ys)"
  by (induction zs) auto

lemma str_contains_middle: "str_contains xs (as @ xs @ bs)"
  by (simp add: str_contains_prefix str_contains_append_left)

lemma status_msg_1_0:
  "str_contains (str_int n) (''code: '' @ str_int n @ '' body:'' @ b @ '' headers:'' @ h)
   \<and> str_contains b (''code: '' @ str_int n @ '' body:'' @ b @ '' headers:'' @ h)"
  using str_contains_middle [of "str_int n" "''code: ''" "'' body:'' @ b @ '' headers:'' @ h"]
        str_contains_middle [of b "''code: '' @ str_int n @ '' body:''" "'' headers:'' @ h"]
  by simp

lemma status_msg_1_1:
  "str_contains (str_int n) (''code: '' @ str_int n @ '' body:'' @ b)
   \<and> str_contains b (''code: '' @ str_int n @ '' body:'' @ b)"
  using str_contains_middle [of "str_int n" "''code: ''" "'' body:'' @ b"]
        str_contains_middle [of b "''code: '' @ str_int n @ '' body:''" "[]"]
  by simp

lemma status_msg_2_0:
  "str_contains (str_int n) (''code: '' @ str_int n @ '' body: '' @ b)
   \<and> str_contains b (''code: '' @ str_int n @ '' body: '' @ b)"
  using str_contains_middle [of "str_int n" "''code: ''" "'' body: '' @ b"]
        str_contains_middle [of b "''code: '' @ str_int n @ '' body: ''" "[]"]
  by simp

lemma forced_1_0:
  "auth_version s = ''1.0'' \<Longrightarrow> authenticate e True s = authenticate_1_0 e s"
  by (simp add: authenticate_def)

lemma forced_1_1:
  "auth_version s = ''1.1'' \<Longrightarrow> authenticate e True s = authenticate_1_1 e s"
  by (simp add: authenticate_def)

lemma forced_2_0:
  "auth_version s = ''2.0'' \<or> auth_version s = ''2.0_apikey'' \<Longrightarrow>
   authenticate e True s = authenticate_2_0_with_apikey e s"
  by (auto simp: authenticate_def)

lemma forced_2_0_password:
  "auth_version s = ''2.0_password'' \<Longrightarrow> authenticate e True s = authenticate_2_0_with_password e s"
  by (simp add: authenticate_def)

lemma forced_authenticate_reply:
  assumes "auth_version s \<in> {''1.0'', ''1.1'', ''2.0'', ''2.0_apikey'', ''2.0_password''}"
      and "snd (snd (authenticate e True s)) = [req]" and "request e req = Inr resp"
  shows "authenticate e True s =
           (fst (on_response (auth_version s) e s resp), snd (on_response (auth_version s) e s resp), [req])"
proof -
  consider "auth_version s = ''1.0''" | "auth_version s = ''1.1''"
    | "auth_version s = ''2.0'' \<or> auth_version s = ''2.0_apikey''" | "auth_version s = ''2.0_password''"
    using assms(1) by auto
  then show ?thesis
  proof cases
    case 1
    with assms(2) have "req = authenticate_1_0_request s"
      by (simp add: forced_1_0 authenticate_1_0_def handshake_log)
    with 1 assms(3) show ?thesis
      by (simp add: forced_1_0 authenticate_1_0_def handshake_reply on_response_def)
  next
    case 2
    with assms(2) have "req = authenticate_1_1_request s"
      by (simp add: forced_1_1 authenticate_1_1_def handshake_log)
    with 2 assms(3) show ?thesis
      by (simp add: forced_1_1 authenticate_1_1_def handshake_reply on_response_def)
  next
    case 3
    with assms(2) have "req = authenticate_2_0_with_body_request (apikey_data s)"
      by (simp add: forced_2_0 authenticate_2_0_with_apikey_def authenticate_2_0_with_body_def handshake_log)
    with 3 assms(3) show ?thesis
      by (auto simp: forced_2_0 authenticate_2_0_with_apikey_def authenticate_2_0_with_body_def
          handshake_reply on_response_def)
  next
    case 4
    with assms(2) have "req = authenticate_2_0_with_body_request (password_data s)"
      by (simp add: forced_2_0_password authenticate_2_0_with_password_def authenticate_2_0_with_body_def handshake_log)
    with 4 assms(3) show ?thesis
      by (simp add: forced_2_0_password authenticate_2_0_with_password_def authenticate_2_0_with_body_def
          handshake_reply on_response_def)
  qed
qed

lemma on_response_401:
  "status resp = 401 \<Longrightarrow> on_response ver e s resp = (Some InvalidCredsError, s)"
  by (simp add: on_response_def authenticate_1_0_response_def authenticate_1_1_response_def
      authenticate_2_0_with_body_response_def)

lemma on_response_other_status:
  assumes "status resp \<noteq> 401" and "status resp \<notin> set (spec_success_codes ver)"
  shows "\<exists>msg. on_response ver e s resp = (Some (MalformedResponseError ''Malformed response'' (Body msg)), s)
           \<and> str_contains (str_int (status resp)) msg \<and> str_contains (body resp) msg"
proof -
  consider "ver = ''1.0''" | "ver = ''1.1''" | "ver \<noteq> ''1.0'' \<and> ver \<noteq> ''1.1''"
    by blast
  then show ?thesis
  proof cases
    case 1
    with assms show ?thesis
      using status_msg_1_0 [of "status resp" "body resp" "str_headers e (headers resp)"]
      by (simp add: on_response_def authenticate_1_0_response_def spec_success_codes_def)
  next
    case 2
    with assms show ?thesis
      using status_msg_1_1 [of "status resp" "body resp"]
      by (simp add: on_response_def authenticate_1_1_response_def spec_success_codes_def)
  next
    case 3
    with assms show ?thesis
      using status_msg_2_0 [of "status resp" "body resp"]
      by (simp add: on_response_def authenticate_2_0_with_body_response_def spec_success_codes_def)
  qed
qed

lemma sending_is_forced:
  "snd (snd (authenticate e force s)) = [req] \<Longrightarrow> authenticate e force s = authenticate e True s"
  by (auto simp: authenticate_def)

section \<open>The 1.0 handshake\<close>

lemma catalog_of_1_0_urls:
  "\<exists>c. OpenStackServiceCatalog
          (JObj [(''cloudServers'', JArr [JObj [(''publicURL'', a)]]),
                 (''cloudFilesCDN'', JArr [JObj [(''publicURL'', b)]]),
                 (''cloudFiles'', JArr [JObj [(''publicURL'', u)]])]) (Some ''1.0'') = Inr c
      \<and> get_endpoints c KNone (KStr ''cloudFiles'') = Inr [JObj [(''publicURL'', u)]]"
  by (simp add: OpenStackServiceCatalog_def parse_auth_v1_def add_endpoint_def setdefault_empty_def
      dict_get_def get_endpoints_def service_regions_def)

lemma authenticate_1_0_response_204:
  "status resp = 204 \<Longrightarrow>
   authenticate_1_0_response e s resp =
     (if truthy (header_get (headers resp) ''x-auth-token'') then None
      else Some (MalformedResponseError
                  (''Missing X-Auth-Token in '' @ replicate 46 CHR '' '' @ ''response headers'') NoBody),
      s\<lparr>urls := JObj
           [(''cloudServers'', JArr [JObj [(''publicURL'', header_get (headers resp) ''x-server-management-url'')]]),
            (''cloudFilesCDN'', JArr [JObj [(''publicURL'', header_get (headers resp) ''x-cdn-management-url'')]]),
            (''cloudFiles'', JArr [JObj [(''publicURL'', header_get (headers resp) ''x-storage-url'')]])],
         auth_token := header_get (headers resp) ''x-auth-token'',
         auth_user_info := JNull\<rparr>)"
  by (simp add: authenticate_1_0_response_def Let_def)

text \<open>
  C5, amended: a 204 response with headers \<open>x-auth-token: T\<close>, \<open>T\<close> non-empty, and
  \<open>x-storage-url: U\<close> makes the 1.0 handshake succeed with token \<open>T\<close>, and in the
  catalog built from the resulting URLs \<^verbatim>\<open>get_endpoints(name="cloudFiles")\<close> is the one
  endpoint whose \<open>publicURL\<close> is \<open>U\<close>.  A 204 response whose \<open>x-auth-token\<close> header is
  missing or empty fails with \<^verbatim>\<open>MalformedResponseError\<close>.
\<close>

theorem authenticate_1_0_token_and_storage_url:
  assumes "request e (authenticate_1_0_request s) = Inr resp" and "status resp = 204"
  shows "(map_of (headers resp) ''x-auth-token'' = Some T \<and> T \<noteq> []
            \<and> map_of (headers resp) ''x-storage-url'' = Some U \<longrightarrow>
          (\<exists>s' c. authenticate_1_0 e s = (None, s', [authenticate_1_0_request s])
                \<and> auth_token s' = JStr T
                \<and> OpenStackServiceCatalog (urls s') (Some ''1.0'') = Inr c
                \<and> get_endpoints c KNone (KStr ''cloudFiles'') = Inr [JObj [(''publicURL'', JStr U)]]))
       \<and> (map_of (headers resp) ''x-auth-token'' = None \<or> map_of (headers resp) ''x-auth-token'' = Some [] \<longrightarrow>
          (\<exists>v b s'. authenticate_1_0 e s
                      = (Some (MalformedResponseError v b), s', [authenticate_1_0_request s])))"
proof (intro conjI impI)
  assume h: "map_of (headers resp) ''x-auth-token'' = Some T \<and> T \<noteq> []
            \<and> map_of (headers resp) ''x-storage-url'' = Some U"
  obtain c where c: "OpenStackServiceCatalog
          (JObj [(''cloudServers'', JArr [JObj [(''publicURL'', header_get (headers resp) ''x-server-management-url'')]]),
                 (''cloudFilesCDN'', JArr [JObj [(''publicURL'', header_get (headers resp) ''x-cdn-management-url'')]]),
                 (''cloudFiles'', JArr [JObj [(''publicURL'', JStr U)]])]) (Some ''1.0'') = Inr c"
      "get_endpoints c KNone (KStr ''cloudFiles'') = Inr [JObj [(''publicURL'', JStr U)]]"
    using catalog_of_1_0_urls by blast
  from h c show "\<exists>s' c. authenticate_1_0 e s = (None, s', [authenticate_1_0_request s])
                \<and> auth_token s' = JStr T
                \<and> OpenStackServiceCatalog (urls s') (Some ''1.0'') = Inr c
                \<and> get_endpoints c KNone (KStr ''cloudFiles'') = Inr [JObj [(''publicURL'', JStr U)]]"
    by (simp add: authenticate_1_0_def handshake_reply [OF assms(1)]
        authenticate_1_0_response_204 [OF assms(2)] header_get_def)
next
  assume "map_of (headers resp) ''x-auth-token'' = None \<or> map_of (headers resp) ''x-auth-token'' = Some []"
  then show "\<exists>v b s'. authenticate_1_0 e s
                      = (Some (MalformedResponseError v b), s', [authenticate_1_0_request s])"
    by (auto simp: authenticate_1_0_def handshake_reply [OF assms(1)]
        authenticate_1_0_response_204 [OF assms(2)] header_get_def)
qed

text \<open>A 204 response with token \<open>T0\<close> and a storage URL, and one without a token.\<close>

theorem authenticate_1_0_token_and_storage_url_witness:
  "(\<exists>s' c. authenticate_1_0 (replying_env 0 (no_content [(''x-auth-token'', ''T0''), (''x-storage-url'', ''https://storage'')]) None)
              (cached_conn ''1.0'' JNull None)
            = (None, s', [authenticate_1_0_request (cached_conn ''1.0'' JNull None)])
         \<and> auth_token s' = JStr ''T0''
         \<and> OpenStackServiceCatalog (urls s') (Some ''1.0'') = Inr c
         \<and> get_endpoints c KNone (KStr ''cloudFiles'') = Inr [JObj [(''publicURL'', JStr ''https://storage'')]])
   \<and> (\<exists>v b s'. authenticate_1_0 (replying_env 0 (no_content [(''x-storage-url'', ''https://storage'')]) None)
                  (cached_conn ''1.0'' JNull None)
                = (Some (MalformedResponseError v b), s', [authenticate_1_0_request (cached_conn ''1.0'' JNull None)]))"
  using authenticate_1_0_token_and_storage_url
          [of "replying_env 0 (no_content [(''x-auth-token'', ''T0''), (''x-storage-url'', ''https://storage'')]) None"
              "cached_conn ''1.0'' JNull None"
              "no_content [(''x-auth-token'', ''T0''), (''x-storage-url'', ''https://storage'')]"
              "''T0''" "''https://storage''"]
        authenticate_1_0_token_and_storage_url
          [of "replying_env 0 (no_content [(''x-storage-url'', ''https://storage'')]) None"
              "cached_conn ''1.0'' JNull None"
              "no_content [(''x-storage-url'', ''https://storage'')]"]
  by (simp add: replying_env_def no_content_def)

text \<open>
  C5, as stated, fails for an empty \<open>T\<close>: the header is there, the status is 204, and
  the handshake raises \<^verbatim>\<open>MalformedResponseError\<close>.
\<close>

theorem authenticate_1_0_empty_token_counterexample:
  "status (no_content [(''x-auth-token'', ''''), (''x-storage-url'', ''https://storage'')]) = 204
   \<and> map_of (headers (no_content [(''x-auth-token'', ''''), (''x-storage-url'', ''https://storage'')])) ''x-auth-token'' = Some ''''
   \<and> map_of (headers (no_content [(''x-auth-token'', ''''), (''x-storage-url'', ''https://storage'')])) ''x-storage-url'' = Some ''https://storage''
   \<and> fst (authenticate_1_0 (replying_env 0 (no_content [(''x-auth-token'', ''''), (''x-storage-url'', ''https://storage'')]) None)
            (cached_conn ''1.0'' JNull None))
       = Some (MalformedResponseError
                (''Missing X-Auth-Token in '' @ replicate 46 CHR '' '' @ ''response headers'') NoBody)"
  by (simp add: authenticate_1_0_def handshake_def replying_env_def no_content_def
      authenticate_1_0_response_def header_get_def Let_def)

section \<open>What a handshake does to the connection\<close>

lemma except_KeyError_None: "fst (except_KeyError r) = None \<longleftrightarrow> fst r = None"
  by (auto simp: except_KeyError_def split: prod.splits option.splits error.splits)

lemma except_KeyError_ok: "fst r = None \<Longrightarrow> except_KeyError r = r"
  by (auto simp: except_KeyError_def split: prod.splits option.splits error.splits)

lemma fields_1_1_ok:
  assumes "fst (authenticate_1_1_fields e s0 b) = None"
  shows "\<exists>tok ex cat. \<forall>s. authenticate_1_1_fields e s b =
           (None, s\<lparr>auth_token := tok, auth_token_expires := Some ex, urls := cat, auth_user_info := JNull\<rparr>)"
proof -
  from assms obtain expires tok ex cat where
    "py_path b [''auth'', ''token'', ''expires''] = Inr expires"
    "py_path b [''auth'', ''token'', ''id''] = Inr tok"
    "parse_date e expires = Inr ex"
    "py_path b [''auth'', ''serviceCatalog''] = Inr cat"
    by (auto simp: authenticate_1_1_fields_def Let_def simp del: py_path.simps split: sum.splits)
  then have "\<forall>s. authenticate_1_1_fields e s b =
           (None, s\<lparr>auth_token := tok, auth_token_expires := Some ex, urls := cat, auth_user_info := JNull\<rparr>)"
    by (simp add: authenticate_1_1_fields_def Let_def del: py_path.simps)
  then show ?thesis by blast
qed

lemma fields_2_0_ok:
  assumes "fst (authenticate_2_0_fields e s0 b) = None"
  shows "\<exists>tok ex cat info. \<forall>s. authenticate_2_0_fields e s b =
           (None, s\<lparr>auth_token := tok, auth_token_expires := Some ex, urls := cat, auth_user_info := info\<rparr>)"
proof -
  from assms obtain access expires tok ex cat info where
    "py_getitem b ''access'' = Inr access"
    "py_path access [''token'', ''expires''] = Inr expires"
    "py_path access [''token'', ''id''] = Inr tok"
    "parse_date e expires = Inr ex"
    "py_getitem access ''serviceCatalog'' = Inr cat"
    "py_get access ''user'' (JObj []) = Inr info"
    by (auto simp: authenticate_2_0_fields_def Let_def simp del: py_path.simps split: sum.splits)
  then have "\<forall>s. authenticate_2_0_fields e s b =
           (None, s\<lparr>auth_token := tok, auth_token_expires := Some ex, urls := cat, auth_user_info := info\<rparr>)"
    by (simp add: authenticate_2_0_fields_def Let_def del: py_path.simps)
  then show ?thesis by blast
qed

lemma response_1_0_ok:
  assumes "fst (authenticate_1_0_response e s0 resp) = None"
  shows "\<exists>tok cat. \<forall>s. authenticate_1_0_response e s resp =
           (None, s\<lparr>urls := cat, auth_token := tok, auth_user_info := JNull\<rparr>)"
  using assms unfolding authenticate_1_0_response_def Let_def
  by (auto split: if_splits)

lemma response_1_1_ok:
  assumes "fst (authenticate_1_1_response e s0 resp) = None"
  shows "\<exists>tok ex cat. \<forall>s. authenticate_1_1_response e s resp =
           (None, s\<lparr>auth_token := tok, auth_token_expires := Some ex, urls := cat, auth_user_info := JNull\<rparr>)"
proof -
  from assms obtain b where b: "status resp = 200" "json_loads e (body resp) = Some b"
      "fst (authenticate_1_1_fields e s0 b) = None"
    by (auto simp: authenticate_1_1_response_def except_KeyError_None split: if_splits option.splits)
  from fields_1_1_ok [OF b(3)] obtain tok ex cat where
    f: "\<And>s. authenticate_1_1_fields e s b =
           (None, s\<lparr>auth_token := tok, auth_token_expires := Some ex, urls := cat, auth_user_info := JNull\<rparr>)"
    by blast
  have "\<forall>s. authenticate_1_1_response e s resp =
           (None, s\<lparr>auth_token := tok, auth_token_expires := Some ex, urls := cat, auth_user_info := JNull\<rparr>)"
    using b(1,2) by (simp add: authenticate_1_1_response_def f except_KeyError_ok)
  then show ?thesis by blast
qed

lemma response_2_0_ok:
  assumes "fst (authenticate_2_0_with_body_response e s0 resp) = None"
  shows "\<exists>tok ex cat info. \<forall>s. authenticate_2_0_with_body_response e s resp =
           (None, s\<lparr>auth_token := tok, auth_token_expires := Some ex, urls := cat, auth_user_info := info\<rparr>)"
proof -
  from assms obtain b where b: "status resp = 200 \<or> status resp = 203" "json_loads e (body resp) = Some b"
      "fst (authenticate_2_0_fields e s0 b) = None"
    by (auto simp: authenticate_2_0_with_body_response_def except_KeyError_None split: if_splits option.splits)
  from fields_2_0_ok [OF b(3)] obtain tok ex cat info where
    f: "\<And>s. authenticate_2_0_fields e s b =
           (None, s\<lparr>auth_token := tok, auth_token_expires := Some ex, urls := cat, auth_user_info := info\<rparr>)"
    by blast
  have "\<forall>s. authenticate_2_0_with_body_response e s resp =
           (None, s\<lparr>auth_token := tok, auth_token_expires := Some ex, urls := cat, auth_user_info := info\<rparr>)"
    using b(1,2) by (auto simp: authenticate_2_0_with_body_response_def f except_KeyError_ok)
  then show ?thesis by blast
qed

lemma response_early_failure:
  "status resp \<noteq> 204 \<Longrightarrow> snd (authenticate_1_0_response e s resp) = s"
  "status resp \<noteq> 200 \<or> json_loads e (body resp) = None \<Longrightarrow> snd (authenticate_1_1_response e s resp) = s"
  "status resp \<notin> {200, 203} \<or> json_loads e (body resp) = None \<Longrightarrow>
     snd (authenticate_2_0_with_body_response e s resp) = s"
  by (auto simp: authenticate_1_0_response_def authenticate_1_1_response_def
      authenticate_2_0_with_body_response_def)

lemma response_1_1_example:
  "authenticate_1_1_response (replying_env 0 ok_response (Some body_1_1)) s ok_response =
     (None, s\<lparr>auth_token := JStr ''T1'', auth_token_expires := Some 1893456000000000,
              urls := JObj [(''cloudFiles'',
                 JArr [JObj [(''region'', JStr ''DFW''), (''publicURL'', JStr ''https://dfw'')]])],
              auth_user_info := JNull\<rparr>)"
  by (simp add: authenticate_1_1_response_def ok_response_def replying_env_def body_1_1_def
      authenticate_1_1_fields_def example_parse_date_def except_KeyError_def)

lemma response_2_0_example:
  "authenticate_2_0_with_body_response (replying_env 0 ok_response (Some body_2_0)) s ok_response =
     (None, s\<lparr>auth_token := JStr ''T2'', auth_token_expires := Some 1893456000000000,
              urls := JArr [JObj [(''type'', JStr ''compute''), (''name'', JStr ''nova''),
                (''endpoints'', JArr [JObj [(''region'', JStr ''DFW''), (''publicURL'', JStr ''https://dfw'')]])]],
              auth_user_info := JObj [(''id'', JStr ''u1'')]\<rparr>)"
  by (simp add: authenticate_2_0_with_body_response_def ok_response_def replying_env_def body_2_0_def
      authenticate_2_0_fields_def example_parse_date_def except_KeyError_def)

text \<open>
  C6, amended: a handshake that succeeds replaces the token, the raw catalog and the
  user info (and, for 1.1 and 2.0, the expiry) by values the response alone
  determines, whatever was cached before, and touches nothing else; a handshake that
  fails on the status code or on decoding the JSON body leaves the connection as it
  was.
\<close>

theorem handshake_replaces_or_keeps:
  "(fst (authenticate_1_0_response e s0 resp) = None \<longrightarrow>
      (\<exists>tok cat. \<forall>s. authenticate_1_0_response e s resp =
          (None, s\<lparr>urls := cat, auth_token := tok, auth_user_info := JNull\<rparr>)))
   \<and> (fst (authenticate_1_1_response e s0 resp) = None \<longrightarrow>
      (\<exists>tok ex cat. \<forall>s. authenticate_1_1_response e s resp =
          (None, s\<lparr>auth_token := tok, auth_token_expires := Some ex, urls := cat, auth_user_info := JNull\<rparr>)))
   \<and> (fst (authenticate_2_0_with_body_response e s0 resp) = None \<longrightarrow>
      (\<exists>tok ex cat info. \<forall>s. authenticate_2_0_with_body_response e s resp =
          (None, s\<lparr>auth_token := tok, auth_token_expires := Some ex, urls := cat, auth_user_info := info\<rparr>)))
   \<and> (status resp \<noteq> 204 \<longrightarrow> snd (authenticate_1_0_response e s0 resp) = s0)
   \<and> (status resp \<noteq> 200 \<or> json_loads e (body resp) = None \<longrightarrow>
        snd (authenticate_1_1_response e s0 resp) = s0)
   \<and> (status resp \<notin> {200, 203} \<or> json_loads e (body resp) = None \<longrightarrow>
        snd (authenticate_2_0_with_body_response e s0 resp) = s0)"
  using response_1_0_ok [of e s0 resp] response_1_1_ok [of e s0 resp] response_2_0_ok [of e s0 resp]
        response_early_failure [of resp e s0]
  by blast

text \<open>One successful response per handshake, and one failure of each early kind.\<close>

theorem handshake_replaces_or_keeps_witness:
  "(\<exists>tok cat. \<forall>s. authenticate_1_0_response (replying_env 0 unauthorized None) s
          (no_content [(''x-auth-token'', ''T0''), (''x-storage-url'', ''https://storage'')]) =
          (None, s\<lparr>urls := cat, auth_token := tok, auth_user_info := JNull\<rparr>))
   \<and> (\<exists>tok ex cat. \<forall>s. authenticate_1_1_response (replying_env 0 ok_response (Some body_1_1)) s ok_response =
          (None, s\<lparr>auth_token := tok, auth_token_expires := Some ex, urls := cat, auth_user_info := JNull\<rparr>))
   \<and> (\<exists>tok ex cat info. \<forall>s. authenticate_2_0_with_body_response (replying_env 0 ok_response (Some body_2_0)) s ok_response =
          (None, s\<lparr>auth_token := tok, auth_token_expires := Some ex, urls := cat, auth_user_info := info\<rparr>))
   \<and> snd (authenticate_1_0_response (replying_env 0 unauthorized None)
            (cached_conn ''1.0'' (JStr ''old'') None) unauthorized) = cached_conn ''1.0'' (JStr ''old'') None
   \<and> snd (authenticate_1_1_response (replying_env 0 ok_response None)
            (cached_conn ''1.1'' (JStr ''old'') None) ok_response) = cached_conn ''1.1'' (JStr ''old'') None
   \<and> snd (authenticate_2_0_with_body_response (replying_env 0 unauthorized None)
            (cached_conn ''2.0'' (JStr ''old'') None) unauthorized) = cached_conn ''2.0'' (JStr ''old'') None"
proof -
  have a: "fst (authenticate_1_0_response (replying_env 0 unauthorized None) (cached_conn ''1.0'' (JStr ''old'') None)
          (no_content [(''x-auth-token'', ''T0''), (''x-storage-url'', ''https://storage'')])) = None"
    by (simp add: authenticate_1_0_response_def no_content_def header_get_def Let_def)
  have b: "fst (authenticate_1_1_response (replying_env 0 ok_response (Some body_1_1))
          (cached_conn ''1.1'' (JStr ''old'') None) ok_response) = None"
    by (simp add: response_1_1_example)
  have c: "fst (authenticate_2_0_with_body_response (replying_env 0 ok_response (Some body_2_0))
          (cached_conn ''2.0'' (JStr ''old'') None) ok_response) = None"
    by (simp add: response_2_0_example)
  have d: "status unauthorized \<noteq> 204" "status unauthorized \<notin> {200, 203}"
    by (simp_all add: unauthorized_def)
  have f: "json_loads (replying_env 0 ok_response None) (body ok_response) = None"
    by (simp add: replying_env_def)
  have w1: "\<exists>tok cat. \<forall>s. authenticate_1_0_response (replying_env 0 unauthorized None) s
          (no_content [(''x-auth-token'', ''T0''), (''x-storage-url'', ''https://storage'')]) =
          (None, s\<lparr>urls := cat, auth_token := tok, auth_user_info := JNull\<rparr>)"
    using handshake_replaces_or_keeps
            [of "replying_env 0 unauthorized None" "cached_conn ''1.0'' (JStr ''old'') None"
                "no_content [(''x-auth-token'', ''T0''), (''x-storage-url'', ''https://storage'')]"] a
    by (elim conjE) (erule (1) mp)
  have w2: "\<exists>tok ex cat. \<forall>s. authenticate_1_1_response (replying_env 0 ok_response (Some body_1_1)) s ok_response =
          (None, s\<lparr>auth_token := tok, auth_token_expires := Some ex, urls := cat, auth_user_info := JNull\<rparr>)"
    using handshake_replaces_or_keeps
            [of "replying_env 0 ok_response (Some body_1_1)" "cached_conn ''1.1'' (JStr ''old'') None" ok_response] b
    by (elim conjE) (erule (1) mp)
  have w3: "\<exists>tok ex cat info. \<forall>s. authenticate_2_0_with_body_response (replying_env 0 ok_response (Some body_2_0)) s ok_response =
          (None, s\<lparr>auth_token := tok, auth_token_expires := Some ex, urls := cat, auth_user_info := info\<rparr>)"
    using handshake_replaces_or_keeps
            [of "replying_env 0 ok_response (Some body_2_0)" "cached_conn ''2.0'' (JStr ''old'') None" ok_response] c
    by (elim conjE) (erule (1) mp)
  have w4: "snd (authenticate_1_0_response (replying_env 0 unauthorized None)
            (cached_conn ''1.0'' (JStr ''old'') None) unauthorized) = cached_conn ''1.0'' (JStr ''old'') None"
    using handshake_replaces_or_keeps
            [of "replying_env 0 unauthorized None" "cached_conn ''1.0'' (JStr ''old'') None" unauthorized] d(1)
    by (elim conjE) (erule (1) mp)
  have w5: "snd (authenticate_1_1_response (replying_env 0 ok_response None)
            (cached_conn ''1.1'' (JStr ''old'') None) ok_response) = cached_conn ''1.1'' (JStr ''old'') None"
    using handshake_replaces_or_keeps
            [of "replying_env 0 ok_response None" "cached_conn ''1.1'' (JStr ''old'') None" ok_response] f
    by (elim conjE) (erule mp, rule disjI2)
  have w6: "snd (authenticate_2_0_with_body_response (replying_env 0 unauthorized None)
            (cached_conn ''2.0'' (JStr ''old'') None) unauthorized) = cached_conn ''2.0'' (JStr ''old'') None"
    using handshake_replaces_or_keeps
            [of "replying_env 0 unauthorized None" "cached_conn ''2.0'' (JStr ''old'') None" unauthorized] d(2)
    by (elim conjE) (erule mp, rule disjI1)
  show ?thesis
    using w1 w2 w3 w4 w5 w6 by (intro conjI)
qed

text \<open>
  C6, as stated, fails: a 1.0 handshake answered 204 without \<open>x-auth-token\<close> raises
  \<^verbatim>\<open>MalformedResponseError\<close> and leaves the catalog URLs replaced and the token
  \<^verbatim>\<open>None\<close>, where a token was cached before.
\<close>

theorem handshake_partial_update_counterexample:
  "auth_token (cached_conn ''1.0'' (JStr ''old'') None) = JStr ''old''
   \<and> urls (cached_conn ''1.0'' (JStr ''old'') None) = JObj []
   \<and> authenticate_1_0_response (replying_env 0 unauthorized None) (cached_conn ''1.0'' (JStr ''old'') None)
        (no_content [(''x-storage-url'', ''https://storage'')])
     = (Some (MalformedResponseError
                (''Missing X-Auth-Token in '' @ replicate 46 CHR '' '' @ ''response headers'') NoBody),
        (cached_conn ''1.0'' (JStr ''old'') None)
          \<lparr>urls := JObj [(''cloudServers'', JArr [JObj [(''publicURL'', JNull)]]),
                         (''cloudFilesCDN'', JArr [JObj [(''publicURL'', JNull)]]),
                         (''cloudFiles'', JArr [JObj [(''publicURL'', JStr ''https://storage'')]])],
            auth_token := JNull\<rparr>)"
  by (simp add: authenticate_1_0_response_def no_content_def header_get_def Let_def cached_conn_def
      OpenStackAuthConnection_def)

section \<open>The Auth Response Decoder: headers and content type\<close>

lemma type_token_takeWhile: "type_token ct = takeWhile (\<lambda>c. c \<noteq> CHR '';'') ct"
proof (cases "CHR '';'' \<in> set ct")
  case True
  then show ?thesis by (simp add: type_token_def)
next
  case False
  then have "takeWhile (\<lambda>c. c \<noteq> CHR '';'') ct = ct"
    by (subst takeWhile_eq_all_conv) auto
  with False show ?thesis by (simp add: type_token_def del: takeWhile_eq_all_conv)
qed

lemma decode_body_eq:
  "decode_body e resp ct =
     (if takeWhile (\<lambda>c. c \<noteq> CHR '';'') ct = ''application/json'' then
        (case json_loads e (body resp) of
           None \<Rightarrow> Inl (MalformedResponseError ''Failed to parse JSON'' (Body (body resp)))
         | Some d \<Rightarrow> Inr d)
      else Inr (JStr (body resp)))"
  by (simp add: decode_body_def type_token_takeWhile Let_def)

text \<open>Lower-cased header names: no name keeps a capital letter, a name that is there
  in some spelling is there in lower case, with the value of one of its spellings.\<close>

lemma lower_char_not_upper_C: "lower_char c \<noteq> CHR ''C''"
  by (simp add: lower_char_def)

lemma lower_str_not_Content_Type: "lower_str k \<noteq> ''Content-Type''"
proof
  assume "lower_str k = ''Content-Type''"
  then have "CHR ''C'' \<in> set (lower_str k)" by simp
  then obtain x where "lower_char x = CHR ''C''" by (auto simp: lower_str_def)
  then show False by (simp add: lower_char_not_upper_C)
qed

lemma lower_content_type: "lower_str ''content-type'' = ''content-type''"
  by (simp add: lower_str_def lower_char_def)

lemma fold_lower_absent:
  "nm \<notin> lower_str ` fst ` set xs \<Longrightarrow>
   map_of (fold (\<lambda>kv acc. AList.update (lower_str (fst kv)) (snd kv) acc) xs acc) nm = map_of acc nm"
  by (induction xs arbitrary: acc) (auto simp: update_conv')

lemma fold_lower_present:
  "map_of (fold (\<lambda>kv acc. AList.update (lower_str (fst kv)) (snd kv) acc) xs acc) nm = Some v \<Longrightarrow>
   (\<exists>k. lower_str k = nm \<and> (k, v) \<in> set xs) \<or> map_of acc nm = Some v"
proof (induction xs arbitrary: acc)
  case Nil
  then show ?case by simp
next
  case (Cons x xs)
  from Cons.IH [of "AList.update (lower_str (fst x)) (snd x) acc"] Cons.prems
  show ?case by (cases x) (auto simp: update_conv' split: if_splits)
qed

lemma fold_lower_some:
  "nm \<in> lower_str ` fst ` set xs \<or> map_of acc nm \<noteq> None \<Longrightarrow>
   map_of (fold (\<lambda>kv acc. AList.update (lower_str (fst kv)) (snd kv) acc) xs acc) nm \<noteq> None"
proof (induction xs arbitrary: acc)
  case Nil
  then show ?case by simp
next
  case (Cons x xs)
  have "nm \<in> lower_str ` fst ` set xs \<or> map_of (AList.update (lower_str (fst x)) (snd x) acc) nm \<noteq> None"
    using Cons.prems by (auto simp: update_conv')
  from Cons.IH [OF this] show ?case by simp
qed

lemma in_clearjunk_map_of: "(k, v) \<in> set (AList.clearjunk d) \<Longrightarrow> map_of d k = Some v"
  using map_of_is_SomeI [OF distinct_clearjunk, of k v d] by (simp add: map_of_clearjunk)

lemma clearjunk_keys: "fst ` set (AList.clearjunk d) = fst ` set d"
  using clearjunk_keys_set [of d] by simp

lemma lowercase_keys_absent:
  "nm \<notin> lower_str ` fst ` set d \<Longrightarrow> map_of (lowercase_keys d) nm = None"
  by (simp add: lowercase_keys_def fold_lower_absent clearjunk_keys)

lemma lowercase_keys_present:
  assumes "nm \<in> lower_str ` fst ` set d"
  shows "\<exists>k v. lower_str k = nm \<and> map_of d k = Some v \<and> map_of (lowercase_keys d) nm = Some v"
proof -
  from assms have "map_of (lowercase_keys d) nm \<noteq> None"
    by (simp add: lowercase_keys_def fold_lower_some clearjunk_keys)
  then obtain v where v: "map_of (lowercase_keys d) nm = Some v" by blast
  then have "\<exists>k. lower_str k = nm \<and> (k, v) \<in> set (AList.clearjunk d)"
    using fold_lower_present [of "AList.clearjunk d" "[]" nm v] by (simp add: lowercase_keys_def)
  then obtain k where k: "lower_str k = nm" and mem: "(k, v) \<in> set (AList.clearjunk d)"
    by (elim exE conjE)
  from mem have "map_of d k = Some v"
    by (rule in_clearjunk_map_of)
  with k v show ?thesis
    by (intro exI conjI)
qed

lemma lowercase_keys_no_Content_Type: "map_of (lowercase_keys d) ''Content-Type'' = None"
proof (rule lowercase_keys_absent)
  show "''Content-Type'' \<notin> lower_str ` fst ` set d"
  proof
    assume "''Content-Type'' \<in> lower_str ` fst ` set d"
    then obtain k where k: "''Content-Type'' = lower_str k" by blast
    from lower_str_not_Content_Type [of k] k [symmetric] show False by (rule notE)
  qed
qed

lemma lower_CONTENT_TYPE:
  "lower_str ''CONTENT-TYPE'' = ''content-type''" "lower_str ''Content-Type'' = ''content-type''"
  "lower_str ''Accept'' = ''accept''"
  by (simp_all add: lower_str_def lower_char_def)

text \<open>
  C7: an empty body gives \<^verbatim>\<open>None\<close>, not an error; a response with a body and no
  header whose name is \<open>content-type\<close> in any casing fails with the missing-header
  error; a header of that name in any casing is accepted, and its value is matched
  on the text before the first semicolon only: \<open>application/json\<close> is decoded as
  JSON, anything else returns the body as text.
\<close>

theorem response_object_header_and_type:
  "(body raw = [] \<longrightarrow> response_object e raw = Inr JNull)
   \<and> (body raw \<noteq> [] \<and> ''content-type'' \<notin> lower_str ` fst ` set (headers raw) \<longrightarrow>
        response_object e raw = Inl (LibcloudError ''Missing content-type header''))
   \<and> (body raw \<noteq> [] \<and> ''content-type'' \<in> lower_str ` fst ` set (headers raw) \<longrightarrow>
        (\<exists>k ct. lower_str k = ''content-type'' \<and> map_of (headers raw) k = Some ct
           \<and> response_object e raw =
               (if takeWhile (\<lambda>c. c \<noteq> CHR '';'') ct = ''application/json'' then
                  (case json_loads e (body raw) of
                     None \<Rightarrow> Inl (MalformedResponseError ''Failed to parse JSON'' (Body (body raw)))
                   | Some d \<Rightarrow> Inr d)
                else Inr (JStr (body raw)))))"
proof (intro conjI impI)
  assume "body raw = []"
  then show "response_object e raw = Inr JNull"
    by (simp add: response_object_def parse_body_def)
next
  assume a: "body raw \<noteq> [] \<and> ''content-type'' \<notin> lower_str ` fst ` set (headers raw)"
  then have "map_of (lowercase_keys (headers raw)) ''content-type'' = None"
    by (simp add: lowercase_keys_absent)
  with a show "response_object e raw = Inl (LibcloudError ''Missing content-type header'')"
    by (simp add: response_object_def parse_body_def lowercase_keys_no_Content_Type)
next
  assume a: "body raw \<noteq> [] \<and> ''content-type'' \<in> lower_str ` fst ` set (headers raw)"
  then obtain k ct where k: "lower_str k = ''content-type''" and ct: "map_of (headers raw) k = Some ct"
    and low: "map_of (lowercase_keys (headers raw)) ''content-type'' = Some ct"
    using lowercase_keys_present [of "''content-type''" "headers raw"] by blast
  from a low have "response_object e raw =
               (if takeWhile (\<lambda>c. c \<noteq> CHR '';'') ct = ''application/json'' then
                  (case json_loads e (body raw) of
                     None \<Rightarrow> Inl (MalformedResponseError ''Failed to parse JSON'' (Body (body raw)))
                   | Some d \<Rightarrow> Inr d)
                else Inr (JStr (body raw)))"
    by (simp add: response_object_def parse_body_def decode_body_eq split: option.splits)
  with k ct show "\<exists>k ct. lower_str k = ''content-type'' \<and> map_of (headers raw) k = Some ct
           \<and> response_object e raw =
               (if takeWhile (\<lambda>c. c \<noteq> CHR '';'') ct = ''application/json'' then
                  (case json_loads e (body raw) of
                     None \<Rightarrow> Inl (MalformedResponseError ''Failed to parse JSON'' (Body (body raw)))
                   | Some d \<Rightarrow> Inr d)
                else Inr (JStr (body raw)))"
    by (intro exI conjI)
qed

text \<open>An empty body; a body without the header; \<open>application/json; charset=utf-8\<close>
  under \<open>CONTENT-TYPE\<close>; \<open>text/plain\<close> under \<open>Content-Type\<close>.\<close>

theorem response_object_header_and_type_witness:
  "response_object (replying_env 0 unauthorized None) (with_body [] []) = Inr JNull
   \<and> response_object (replying_env 0 unauthorized None) (with_body ''{}'' [(''Accept'', ''x'')])
       = Inl (LibcloudError ''Missing content-type header'')
   \<and> response_object (replying_env 0 unauthorized (Some (JObj [])))
        (with_body ''{}'' [(''CONTENT-TYPE'', ''application/json; charset=utf-8'')]) = Inr (JObj [])
   \<and> response_object (replying_env 0 unauthorized (Some (JObj [])))
        (with_body ''{}'' [(''Content-Type'', ''text/plain'')]) = Inr (JStr ''{}'')"
proof -
  have l: "''content-type'' \<notin> lower_str ` fst ` set (headers (with_body ''{}'' [(''Accept'', ''x'')]))"
       "''content-type'' \<in> lower_str ` fst ` set (headers (with_body ''{}'' [(''CONTENT-TYPE'', ''application/json; charset=utf-8'')]))"
       "''content-type'' \<in> lower_str ` fst ` set (headers (with_body ''{}'' [(''Content-Type'', ''text/plain'')]))"
    by (simp_all add: with_body_def lower_CONTENT_TYPE)
  show ?thesis
    using response_object_header_and_type [of "with_body [] []" "replying_env 0 unauthorized None"]
          response_object_header_and_type [of "with_body ''{}'' [(''Accept'', ''x'')]" "replying_env 0 unauthorized None"]
          response_object_header_and_type [of "with_body ''{}'' [(''CONTENT-TYPE'', ''application/json; charset=utf-8'')]"
              "replying_env 0 unauthorized (Some (JObj []))"]
          response_object_header_and_type [of "with_body ''{}'' [(''Content-Type'', ''text/plain'')]"
              "replying_env 0 unauthorized (Some (JObj []))"]
          l
    by (auto simp: with_body_def replying_env_def split: if_splits)
qed

section \<open>Handshakes on decoded responses\<close>

lemma OpenStackAuthResponse_eq:
  "OpenStackAuthResponse e raw =
     (case response_object e raw of
        Inl err \<Rightarrow> Inl err
      | Inr obj \<Rightarrow> Inr (raw\<lparr>headers := lowercase_keys (headers raw)\<rparr>))"
  by (simp add: OpenStackAuthResponse_def response_object_def success_def Let_def)

lemma forced_authenticate_raise:
  assumes "auth_version s \<in> {''1.0'', ''1.1'', ''2.0'', ''2.0_apikey'', ''2.0_password''}"
      and "snd (snd (authenticate e True s)) = [req]" and "request e req = Inl err"
  shows "authenticate e True s = (Some err, s, [req])"
proof -
  consider "auth_version s = ''1.0''" | "auth_version s = ''1.1''"
    | "auth_version s = ''2.0'' \<or> auth_version s = ''2.0_apikey''" | "auth_version s = ''2.0_password''"
    using assms(1) by auto
  then show ?thesis
  proof cases
    case 1
    with assms(2) have "req = authenticate_1_0_request s"
      by (simp add: forced_1_0 authenticate_1_0_def handshake_log)
    with 1 assms(3) show ?thesis
      by (simp add: forced_1_0 authenticate_1_0_def handshake_def)
  next
    case 2
    with assms(2) have "req = authenticate_1_1_request s"
      by (simp add: forced_1_1 authenticate_1_1_def handshake_log)
    with 2 assms(3) show ?thesis
      by (simp add: forced_1_1 authenticate_1_1_def handshake_def)
  next
    case 3
    with assms(2) have "req = authenticate_2_0_with_body_request (apikey_data s)"
      by (simp add: forced_2_0 authenticate_2_0_with_apikey_def authenticate_2_0_with_body_def handshake_log)
    with 3 assms(3) show ?thesis
      by (auto simp: forced_2_0 authenticate_2_0_with_apikey_def authenticate_2_0_with_body_def handshake_def)
  next
    case 4
    with assms(2) have "req = authenticate_2_0_with_body_request (password_data s)"
      by (simp add: forced_2_0_password authenticate_2_0_with_password_def authenticate_2_0_with_body_def handshake_log)
    with 4 assms(3) show ?thesis
      by (simp add: forced_2_0_password authenticate_2_0_with_password_def authenticate_2_0_with_body_def handshake_def)
  qed
qed

text \<open>
  C4, amended: for every supported version, when \<^verbatim>\<open>authenticate\<close> sends its handshake
  request and the response is one the Auth Response Decoder accepts, status 401
  fails with \<^verbatim>\<open>InvalidCredsError\<close>, which is not a \<^verbatim>\<open>MalformedResponseError\<close>, and a
  status that is neither 401 nor a success code of the version fails with
  \<^verbatim>\<open>MalformedResponseError\<close>, whose body text contains the status and the response
  body.  A response the decoder refuses fails with the decoder's error, whatever its
  status, and leaves the connection as it was.
\<close>

theorem handshake_status_failures:
  assumes "auth_version s \<in> {''1.0'', ''1.1'', ''2.0'', ''2.0_apikey'', ''2.0_password''}"
      and "snd (snd (authenticate e force s)) = [req]"
      and "request e req = OpenStackAuthResponse e raw"
  shows "(status raw = 401 \<and> response_object e raw = Inr obj \<longrightarrow>
            fst (authenticate e force s) = Some InvalidCredsError
            \<and> (\<forall>v b. fst (authenticate e force s) \<noteq> Some (MalformedResponseError v b)))
         \<and> (status raw \<noteq> 401 \<and> status raw \<notin> set (spec_success_codes (auth_version s))
              \<and> response_object e raw = Inr obj \<longrightarrow>
            (\<exists>msg. fst (authenticate e force s)
                       = Some (MalformedResponseError ''Malformed response'' (Body msg))
                    \<and> str_contains (str_int (status raw)) msg
                    \<and> str_contains (body raw) msg))
         \<and> (response_object e raw = Inl err \<longrightarrow> authenticate e force s = (Some err, s, [req]))"
proof -
  have forced: "authenticate e force s = authenticate e True s"
    using assms(2) by (rule sending_is_forced)
  with assms(2) have sent: "snd (snd (authenticate e True s)) = [req]"
    by simp
  define resp where "resp = raw\<lparr>headers := lowercase_keys (headers raw)\<rparr>"
  have fields: "status resp = status raw" "body resp = body raw"
    by (simp_all add: resp_def)
  show ?thesis
  proof (intro conjI impI)
    assume a: "status raw = 401 \<and> response_object e raw = Inr obj"
    with assms(3) have "request e req = Inr resp"
      by (simp add: OpenStackAuthResponse_eq resp_def)
    note reply = forced_authenticate_reply [OF assms(1) sent this]
    from a show "fst (authenticate e force s) = Some InvalidCredsError"
      by (simp add: forced reply on_response_401 fields)
    then show "\<forall>v b. fst (authenticate e force s) \<noteq> Some (MalformedResponseError v b)"
      by simp
  next
    assume a: "status raw \<noteq> 401 \<and> status raw \<notin> set (spec_success_codes (auth_version s))
              \<and> response_object e raw = Inr obj"
    with assms(3) have "request e req = Inr resp"
      by (simp add: OpenStackAuthResponse_eq resp_def)
    note reply = forced_authenticate_reply [OF assms(1) sent this]
    from a obtain msg where
      "on_response (auth_version s) e s resp = (Some (MalformedResponseError ''Malformed response'' (Body msg)), s)"
      "str_contains (str_int (status raw)) msg" "str_contains (body raw) msg"
      using on_response_other_status [of resp "auth_version s" e s] by (auto simp: fields)
    then show "\<exists>msg. fst (authenticate e force s)
                       = Some (MalformedResponseError ''Malformed response'' (Body msg))
                    \<and> str_contains (str_int (status raw)) msg
                    \<and> str_contains (body raw) msg"
      by (auto simp: forced reply)
  next
    assume "response_object e raw = Inl err"
    with assms(3) have "request e req = Inl err"
      by (simp add: OpenStackAuthResponse_eq)
    from forced_authenticate_raise [OF assms(1) sent this] show "authenticate e force s = (Some err, s, [req])"
      by (simp add: forced)
  qed
qed

lemma parse_body_loads:
  "json_loads e = json_loads e' \<Longrightarrow> parse_body e r = parse_body e' r"
  by (simp add: parse_body_def decode_body_def split: option.splits)

lemma wire_env_loads: "json_loads (wire_env now raw parsed) = json_loads (replying_env now raw parsed)"
  by (simp add: wire_env_def)

lemma wire_env_request:
  "request (wire_env now raw parsed) req = OpenStackAuthResponse (wire_env now raw parsed) raw"
proof -
  have "parse_body (wire_env now raw parsed) r = parse_body (replying_env now raw parsed) r" for r
    by (rule parse_body_loads [OF wire_env_loads])
  then have "OpenStackAuthResponse (wire_env now raw parsed) raw
      = OpenStackAuthResponse (replying_env now raw parsed) raw"
    by (simp add: OpenStackAuthResponse_eq response_object_def)
  moreover have "request (wire_env now raw parsed) req
      = OpenStackAuthResponse (replying_env now raw parsed) raw"
    by (simp add: wire_env_def)
  ultimately show ?thesis by simp
qed

lemma wire_env_object:
  "response_object (wire_env now raw parsed) raw =
     parse_body (replying_env now raw parsed) (raw\<lparr>headers := lowercase_keys (headers raw)\<rparr>)"
  unfolding response_object_def by (rule parse_body_loads [OF wire_env_loads])

lemma lowercase_one: "lowercase_keys [(k, v)] = [(lower_str k, v)]"
  by (simp add: lowercase_keys_def)

lemma wire_2_0_sent:
  "snd (snd (authenticate (wire_env now raw parsed) True (cached_conn ''2.0'' JNull None)))
      = [authenticate_2_0_with_body_request (apikey_data (cached_conn ''2.0'' JNull None))]"
  by (simp add: forced_2_0 cached_conn_def OpenStackAuthConnection_def authenticate_2_0_with_apikey_def
        authenticate_2_0_with_body_def handshake_log)

lemma wire_1_0_sent:
  "snd (snd (authenticate (wire_env now raw parsed) True (cached_conn ''1.0'' JNull None)))
      = [authenticate_1_0_request (cached_conn ''1.0'' JNull None)]"
  by (simp add: forced_1_0 cached_conn_def OpenStackAuthConnection_def authenticate_1_0_def handshake_log)

lemma supported_examples:
  "auth_version (cached_conn ''2.0'' JNull None) \<in> {''1.0'', ''1.1'', ''2.0'', ''2.0_apikey'', ''2.0_password''}"
  "auth_version (cached_conn ''1.0'' JNull None) \<in> {''1.0'', ''1.1'', ''2.0'', ''2.0_apikey'', ''2.0_password''}"
  by (simp_all add: cached_conn_def OpenStackAuthConnection_def)

text \<open>A 2.0 handshake answered 401 with a text body; a 1.0 handshake answered 500
  with body \<open>oops\<close>; a 401 with a body and no content type.\<close>

theorem handshake_status_failures_witness:
  "fst (authenticate (wire_env 0 (plain_text 401 ''denied'') None) True (cached_conn ''2.0'' JNull None))
     = Some InvalidCredsError
   \<and> (\<exists>msg. fst (authenticate (wire_env 0 (plain_text 500 ''oops'') None) True (cached_conn ''1.0'' JNull None))
               = Some (MalformedResponseError ''Malformed response'' (Body msg))
             \<and> str_contains ''500'' msg \<and> str_contains ''oops'' msg)
   \<and> authenticate (wire_env 0 untyped_401 None) True (cached_conn ''2.0'' JNull None)
       = (Some (LibcloudError ''Missing content-type header''), cached_conn ''2.0'' JNull None,
          [authenticate_2_0_with_body_request (apikey_data (cached_conn ''2.0'' JNull None))])"
proof -
  have o1: "response_object (wire_env 0 (plain_text 401 ''denied'') None) (plain_text 401 ''denied'') = Inr (JStr ''denied'')"
    by (simp add: wire_env_object plain_text_def lowercase_one lower_CONTENT_TYPE parse_body_def decode_body_def type_token_def)
  have o2: "response_object (wire_env 0 (plain_text 500 ''oops'') None) (plain_text 500 ''oops'') = Inr (JStr ''oops'')"
    by (simp add: wire_env_object plain_text_def lowercase_one lower_CONTENT_TYPE parse_body_def decode_body_def type_token_def)
  have o3: "response_object (wire_env 0 untyped_401 None) untyped_401 = Inl (LibcloudError ''Missing content-type header'')"
    by (simp add: wire_env_object untyped_401_def lowercase_keys_def parse_body_def)
  have s500: "str_int 500 = ''500''"
    by code_simp
  show ?thesis
    using handshake_status_failures [OF supported_examples(1)
            wire_2_0_sent [of 0 "plain_text 401 ''denied''" None]
            wire_env_request [of 0 "plain_text 401 ''denied''" None],
            where obj = "JStr ''denied''"]
          handshake_status_failures [OF supported_examples(2)
            wire_1_0_sent [of 0 "plain_text 500 ''oops''" None]
            wire_env_request [of 0 "plain_text 500 ''oops''" None],
            where obj = "JStr ''oops''"]
          handshake_status_failures [OF supported_examples(1)
            wire_2_0_sent [of 0 untyped_401 None]
            wire_env_request [of 0 untyped_401 None],
            where err = "LibcloudError ''Missing content-type header''"]
          o1 o2 o3 s500
    by (simp add: plain_text_def spec_success_codes_def cached_conn_def OpenStackAuthConnection_def)
qed

text \<open>
  C4, as stated, fails: a 401 whose body is announced as JSON and does not decode
  fails with \<^verbatim>\<open>MalformedResponseError\<close>, and a 401 with a body and no content type
  fails with the decoder's missing-header error; neither reaches the test of the
  status.
\<close>

theorem unauthorized_not_decoded_counterexample:
  "status bad_json_401 = 401
   \<and> request (wire_env 0 bad_json_401 None)
        (authenticate_2_0_with_body_request (apikey_data (cached_conn ''2.0'' JNull None)))
       = OpenStackAuthResponse (wire_env 0 bad_json_401 None) bad_json_401
   \<and> authenticate (wire_env 0 bad_json_401 None) True (cached_conn ''2.0'' JNull None)
       = (Some (MalformedResponseError ''Failed to parse JSON'' (Body ''<html>denied</html>'')),
          cached_conn ''2.0'' JNull None,
          [authenticate_2_0_with_body_request (apikey_data (cached_conn ''2.0'' JNull None))])
   \<and> status untyped_401 = 401
   \<and> fst (authenticate (wire_env 0 untyped_401 None) True (cached_conn ''1.0'' JNull None))
       = Some (LibcloudError ''Missing content-type header'')"
proof -
  have a: "OpenStackAuthResponse (replying_env 0 bad_json_401 None) bad_json_401
      = Inl (MalformedResponseError ''Failed to parse JSON'' (Body ''<html>denied</html>''))"
    by (simp add: OpenStackAuthResponse_def success_def bad_json_401_def lowercase_one lower_CONTENT_TYPE
        parse_body_def decode_body_def type_token_def replying_env_def)
  have b: "OpenStackAuthResponse (replying_env 0 untyped_401 None) untyped_401
      = Inl (LibcloudError ''Missing content-type header'')"
    by (simp add: OpenStackAuthResponse_def success_def untyped_401_def lowercase_keys_def parse_body_def)
  show ?thesis
    using a b
    by (simp add: wire_env_request)
       (simp add: wire_env_def authenticate_def authenticate_2_0_with_apikey_def authenticate_2_0_with_body_def
          authenticate_1_0_def handshake_def cached_conn_def OpenStackAuthConnection_def
          bad_json_401_def untyped_401_def)
qed

section \<open>The Driver Argument Adapter: round trip\<close>

lemma get_argument_pairs_fst: "map fst get_argument_pairs = EXTENSTION_ARGUMENTS"
  by (simp add: get_argument_pairs_def comp_def)

lemma distinct_EXTENSTION_ARGUMENTS: "distinct EXTENSTION_ARGUMENTS"
  by (simp add: EXTENSTION_ARGUMENTS_def)

lemma distinct_attribute_names: "distinct (map snd get_argument_pairs)"
  by (simp add: get_argument_pairs_def EXTENSTION_ARGUMENTS_def)

lemma get_or_none_Nil: "get_or_none [] k = None"
  by (simp add: get_or_none_def)

lemma get_or_none_update:
  "get_or_none (AList.update k v d) k' = (if k' = k then v else get_or_none d k')"
  by (simp add: get_or_none_def update_conv')

lemma mixin_init_loop_other:
  "attr \<notin> snd ` set pairs \<Longrightarrow>
   get_or_none (mixin_init_loop pairs kwargs attrs) attr = get_or_none attrs attr"
  by (induction pairs kwargs attrs rule: mixin_init_loop.induct)
     (auto simp: get_or_none_update split: option.splits)

lemma mixin_init_loop_set:
  "distinct (map snd pairs) \<Longrightarrow> (a, attr) \<in> set pairs \<Longrightarrow>
   get_or_none (mixin_init_loop pairs kwargs attrs) attr =
     (case get_or_none kwargs a of None \<Rightarrow> get_or_none attrs attr | Some v \<Rightarrow> Some v)"
proof (induction pairs kwargs attrs rule: mixin_init_loop.induct)
  case (1 kwargs attrs)
  then show ?case by simp
next
  case (2 argument_name attribute_name pairs kwargs attrs)
  show ?case
  proof (cases "(a, attr) = (argument_name, attribute_name)")
    case True
    with 2(3) have "attr \<notin> snd ` set pairs" by auto
    with True show ?thesis
      by (auto simp: mixin_init_loop_other get_or_none_update split: option.splits)
  next
    case False
    with 2(4) have mem: "(a, attr) \<in> set pairs" by auto
    with 2(3) have ne: "attr \<noteq> attribute_name" by (auto simp: image_iff)
    from 2(3) have d: "distinct (map snd pairs)" by simp
    show ?thesis
    proof (cases "get_or_none kwargs argument_name")
      case None
      with 2(1) [OF None d mem] show ?thesis by simp
    next
      case (Some v)
      with 2(2) [OF Some d mem] ne show ?thesis
        by (simp add: get_or_none_update split: option.splits)
    qed
  qed
qed

lemma connection_kwargs_loop_other:
  "name \<notin> fst ` set pairs \<Longrightarrow>
   map_of (connection_kwargs_loop tr pairs attrs result) name = map_of result name"
  by (induction tr pairs attrs result rule: connection_kwargs_loop.induct)
     (auto simp: update_conv' split: option.splits)

lemma connection_kwargs_loop_set:
  "distinct (map fst pairs) \<Longrightarrow> (name, attr) \<in> set pairs \<Longrightarrow>
   map_of (connection_kwargs_loop tr pairs attrs result) name =
     (case get_or_none attrs attr of
        None \<Rightarrow> map_of result name
      | Some v \<Rightarrow> if tr v then Some v else map_of result name)"
proof (induction tr pairs attrs result rule: connection_kwargs_loop.induct)
  case (1 tr attrs result)
  then show ?case by simp
next
  case (2 tr argument_name attribute_name pairs attrs result)
  show ?case
  proof (cases "(name, attr) = (argument_name, attribute_name)")
    case True
    with 2(4) have "name \<notin> fst ` set pairs" by auto
    with True show ?thesis
      by (auto simp: connection_kwargs_loop_other update_conv' split: option.splits)
  next
    case False
    with 2(5) have mem: "(name, attr) \<in> set pairs" by auto
    with 2(4) have ne: "name \<noteq> argument_name" by (auto simp: image_iff)
    from 2(4) have d: "distinct (map fst pairs)" by simp
    show ?thesis
    proof (cases "get_or_none attrs attribute_name")
      case None
      with 2(1) [OF None d mem] show ?thesis by simp
    next
      case (Some v)
      show ?thesis
      proof (cases "tr v")
        case True
        with Some 2(3) [OF Some _ d mem] ne show ?thesis
          by (simp add: update_conv' split: option.splits)
      next
        case False
        with Some 2(2) [OF Some _ d mem] show ?thesis by simp
      qed
    qed
  qed
qed

text \<open>
  C10, amended: on a fresh instance, the mapping \<^verbatim>\<open>openstack_connection_kwargs\<close>
  returns binds a name exactly when the name is in the fixed list and the constructor
  was given a truthy value for it, and then to that value; absent, \<^verbatim>\<open>None\<close> and
  falsy values (an empty string, zero, \<^verbatim>\<open>False\<close>) never appear.  Supplying only
  \<open>ex_tenant_name\<close> with a truthy value yields exactly that one binding.
\<close>

theorem adapter_round_trip:
  "map_of (openstack_connection_kwargs tr (OpenStackDriverMixin [] kwargs)) name =
     (if name \<in> set EXTENSTION_ARGUMENTS then
        (case get_or_none kwargs name of
           None \<Rightarrow> None
         | Some v \<Rightarrow> if tr v then Some v else None)
      else None)
   \<and> openstack_connection_kwargs tr (OpenStackDriverMixin [] [(''ex_tenant_name'', Some v)])
       = (if tr v then [(''ex_tenant_name'', v)] else [])"
proof
  show "map_of (openstack_connection_kwargs tr (OpenStackDriverMixin [] kwargs)) name =
     (if name \<in> set EXTENSTION_ARGUMENTS then
        (case get_or_none kwargs name of
           None \<Rightarrow> None
         | Some v \<Rightarrow> if tr v then Some v else None)
      else None)"
  proof (cases "name \<in> set EXTENSTION_ARGUMENTS")
    case True
    then have mem: "(name, ''_'' @ name) \<in> set get_argument_pairs"
      by (auto simp: get_argument_pairs_def)
    have d: "distinct (map fst get_argument_pairs)"
      by (simp add: get_argument_pairs_fst distinct_EXTENSTION_ARGUMENTS)
    have attr: "get_or_none (OpenStackDriverMixin [] kwargs) (''_'' @ name) = get_or_none kwargs name"
      unfolding OpenStackDriverMixin_def
      using mixin_init_loop_set [OF distinct_attribute_names mem, of kwargs "[]"]
      by (simp add: get_or_none_Nil split: option.splits)
    show ?thesis
      unfolding openstack_connection_kwargs_def
      using True connection_kwargs_loop_set [OF d mem, of tr "OpenStackDriverMixin [] kwargs" "[]"] attr
      by (simp split: option.splits)
  next
    case False
    then have "name \<notin> fst ` set get_argument_pairs"
      using get_argument_pairs_fst by (metis set_map)
    with False show ?thesis
      by (simp add: openstack_connection_kwargs_def connection_kwargs_loop_other)
  qed
next
  show "openstack_connection_kwargs tr (OpenStackDriverMixin [] [(''ex_tenant_name'', Some v)])
       = (if tr v then [(''ex_tenant_name'', v)] else [])"
    by (simp add: openstack_connection_kwargs_def OpenStackDriverMixin_def get_argument_pairs_def
        EXTENSTION_ARGUMENTS_def get_or_none_def)
qed

text \<open>
  C10, as stated, fails: the empty string is a non-null value for \<open>ex_tenant_name\<close>,
  and the mapping read back is empty.
\<close>

theorem adapter_falsy_counterexample:
  "get_or_none [(''ex_tenant_name'', Some (JStr ''''))] ''ex_tenant_name'' = Some (JStr '''')
   \<and> openstack_connection_kwargs truthy (OpenStackDriverMixin [] [(''ex_tenant_name'', Some (JStr ''''))]) = []"
  by (simp add: openstack_connection_kwargs_def OpenStackDriverMixin_def get_argument_pairs_def
        EXTENSTION_ARGUMENTS_def get_or_none_def)

section \<open>The Service Catalog: what the index holds\<close>

lemma dict_get_Nil: "dict_get [] k = []"
  by (simp add: dict_get_def)

lemma dict_get_update: "dict_get (AList.update k v d) k' = (if k' = k then v else dict_get d k')"
  by (simp add: dict_get_def update_conv')

lemma dict_get_setdefault_empty: "dict_get (setdefault_empty k d) k' = dict_get d k'"
  by (simp add: setdefault_empty_def dict_get_update) (simp add: dict_get_def)

lemma update_absent: "map_of al k = None \<Longrightarrow> AList.update k v al = al @ [(k, v)]"
  by (induction al) (auto split: if_splits)

lemma update_last: "map_of al k = None \<Longrightarrow> AList.update k v (al @ [(k, w)]) = al @ [(k, v)]"
  by (induction al) (auto split: if_splits)

text \<open>The endpoint loop: every endpoint it takes is a dict, and it is appended to the
  list of its region.\<close>

lemma add_endpoint_Inr:
  assumes "add_endpoint idx ep = Inr idx'"
  obtains kvs r where "ep = JObj kvs" and "endpoint_region ep = Some r"
    and "idx' = AList.update r (dict_get idx r @ [ep]) (setdefault_empty r idx)"
proof -
  from assms obtain rv r where rv: "py_get ep ''region'' JNull = Inr rv" and r: "hash_key rv = Inr r"
    and idx': "idx' = AList.update r (dict_get (setdefault_empty r idx) r @ [ep]) (setdefault_empty r idx)"
    by (auto simp: add_endpoint_def Let_def split: sum.splits)
  from rv obtain kvs where "ep = JObj kvs"
    by (cases ep) auto
  moreover from rv r have "endpoint_region ep = Some r"
    by (simp add: endpoint_region_def field_or_null_def key_of_def)
  moreover from idx' have "idx' = AList.update r (dict_get idx r @ [ep]) (setdefault_empty r idx)"
    by (simp add: dict_get_setdefault_empty)
  ultimately show ?thesis using that by blast
qed

lemma add_endpoint_lookup:
  assumes "add_endpoint idx ep = Inr idx'"
  shows "dict_get idx' r = dict_get idx r @ (if endpoint_region ep = Some r then [ep] else [])"
  using assms by (elim add_endpoint_Inr) (auto simp: dict_get_update dict_get_setdefault_empty)

lemma parse_endpoints_lookup:
  "parse_endpoints idx eps = Inr idx' \<Longrightarrow>
   dict_get idx' r = dict_get idx r @ filter (\<lambda>ep. endpoint_region ep = Some r) eps"
proof (induction eps arbitrary: idx)
  case Nil
  then show ?case by simp
next
  case (Cons ep eps)
  then obtain idx1 where a: "add_endpoint idx ep = Inr idx1" and p: "parse_endpoints idx1 eps = Inr idx'"
    by (auto split: sum.splits)
  show ?case
    using Cons.IH [OF p] add_endpoint_lookup [OF a, of r] by simp
qed

lemma parse_endpoints_append:
  "parse_endpoints idx (xs @ ys) =
     (case parse_endpoints idx xs of Inl err \<Rightarrow> Inl err | Inr idx1 \<Rightarrow> parse_endpoints idx1 ys)"
  by (induction xs arbitrary: idx) (auto split: sum.splits)

lemma parse_endpoints_dicts:
  "parse_endpoints idx eps = Inr idx' \<Longrightarrow> ep \<in> set eps \<Longrightarrow> \<exists>kvs. ep = JObj kvs"
proof (induction eps arbitrary: idx)
  case Nil
  then show ?case by simp
next
  case (Cons x eps)
  then obtain idx1 where a: "add_endpoint idx x = Inr idx1" and p: "parse_endpoints idx1 eps = Inr idx'"
    by (auto split: sum.splits)
  from a have "\<exists>kvs. x = JObj kvs" by (elim add_endpoint_Inr) blast
  with Cons.IH [OF p] Cons.prems(2) show ?case by auto
qed

text \<open>The first endpoint of every region, in the order of the region dict.\<close>

lemma first_of_each_append:
  "first_of_each (xs @ ys) =
     (case first_of_each xs of
        Inl err \<Rightarrow> Inl err
      | Inr a \<Rightarrow> (case first_of_each ys of Inl err \<Rightarrow> Inl err | Inr b \<Rightarrow> Inr (a @ b)))"
  by (induction xs rule: first_of_each.induct) (auto split: sum.splits list.splits)

lemma first_of_each_grow:
  "map_of idx r = Some l \<Longrightarrow> l \<noteq> [] \<Longrightarrow>
   first_of_each (AList.update r (l @ l2) idx) = first_of_each idx"
proof (induction idx)
  case Nil
  then show ?case by simp
next
  case (Cons p idx)
  obtain k v where p: "p = (k, v)" by (cases p)
  show ?case
  proof (cases "k = r")
    case True
    with Cons.prems p have "v = l" by simp
    moreover from Cons.prems(2) obtain x xs where "l = x # xs" by (cases l) auto
    ultimately show ?thesis using True p by simp
  next
    case False
    with Cons.prems p have "map_of idx r = Some l" by simp
    from Cons.IH [OF this Cons.prems(2)] False p show ?thesis by (simp split: list.splits)
  qed
qed

lemma filter_region_image:
  "r \<noteq> endpoint_region ep0 \<Longrightarrow>
   r \<in> endpoint_region ` set (filter (\<lambda>x. endpoint_region x \<noteq> endpoint_region ep0) eps)
     \<longleftrightarrow> r \<in> endpoint_region ` set eps"
  by auto

lemma first_per_region_snoc:
  "spec_first_per_region (eps @ [ep]) =
     spec_first_per_region eps @ (if endpoint_region ep \<in> endpoint_region ` set eps then [] else [ep])"
proof (induction eps rule: spec_first_per_region.induct)
  case 1
  then show ?case by simp
next
  case (2 ep0 eps)
  show ?case
  proof (cases "endpoint_region ep = endpoint_region ep0")
    case True
    then show ?thesis by simp
  next
    case False
    then have "endpoint_region ep \<in> endpoint_region ` set (filter (\<lambda>x. endpoint_region x \<noteq> endpoint_region ep0) eps)
        \<longleftrightarrow> endpoint_region ep \<in> endpoint_region ` set eps"
      by (rule filter_region_image)
    with False 2 show ?thesis by simp
  qed
qed

lemma grouping_invariants:
  "parse_endpoints [] eps = Inr idx \<Longrightarrow>
   first_of_each idx = Inr (spec_first_per_region eps)
   \<and> (\<forall>k. map_of idx k = None \<longleftrightarrow> Some k \<notin> endpoint_region ` set eps)
   \<and> (\<forall>k l. map_of idx k = Some l \<longrightarrow> l \<noteq> [])"
proof (induction eps arbitrary: idx rule: rev_induct)
  case Nil
  then show ?case by simp
next
  case (snoc ep eps)
  from snoc.prems obtain idx0 where p: "parse_endpoints [] eps = Inr idx0"
    and a: "add_endpoint idx0 ep = Inr idx"
    by (auto simp: parse_endpoints_append split: sum.splits)
  from snoc.IH [OF p] have f: "first_of_each idx0 = Inr (spec_first_per_region eps)"
    and keys: "\<And>k. map_of idx0 k = None \<longleftrightarrow> Some k \<notin> endpoint_region ` set eps"
    and ne: "\<And>k l. map_of idx0 k = Some l \<Longrightarrow> l \<noteq> []"
    by blast+
  from a obtain kvs r where r: "endpoint_region ep = Some r"
    and idx: "idx = AList.update r (dict_get idx0 r @ [ep]) (setdefault_empty r idx0)"
    by (elim add_endpoint_Inr)
  have first: "first_of_each idx = Inr (spec_first_per_region (eps @ [ep]))"
  proof (cases "map_of idx0 r")
    case None
    then have "idx = idx0 @ [(r, [ep])]"
      by (simp add: idx setdefault_empty_def update_absent update_last dict_get_def)
    moreover from None keys have "endpoint_region ep \<notin> endpoint_region ` set eps"
      by (simp add: r)
    ultimately show ?thesis
      by (simp add: first_of_each_append f first_per_region_snoc)
  next
    case (Some l)
    then have "idx = AList.update r (l @ [ep]) idx0"
      by (simp add: idx setdefault_empty_def dict_get_def)
    moreover from Some keys [of r] have "endpoint_region ep \<in> endpoint_region ` set eps"
      by (simp add: r)
    ultimately show ?thesis
      using Some ne [OF Some] by (simp add: first_of_each_grow f first_per_region_snoc)
  qed
  have map: "map_of idx = (map_of idx0)(r \<mapsto> dict_get idx0 r @ [ep])"
    by (auto simp: idx update_conv' setdefault_empty_def)
  have keys': "\<forall>k. map_of idx k = None \<longleftrightarrow> Some k \<notin> endpoint_region ` set (eps @ [ep])"
    using keys r by (auto simp: map)
  have ne': "\<forall>k l. map_of idx k = Some l \<longrightarrow> l \<noteq> []"
    using ne by (auto simp: map)
  from first keys' ne' show ?case by blast
qed

lemma first_per_region_regions:
  "endpoint_region ` set (spec_first_per_region eps) = endpoint_region ` set eps"
proof (induction eps rule: spec_first_per_region.induct)
  case 1
  then show ?case by simp
next
  case (2 ep eps)
  have "endpoint_region ` set (ep # eps)
      = insert (endpoint_region ep) (endpoint_region ` set (filter (\<lambda>x. endpoint_region x \<noteq> endpoint_region ep) eps))"
    by auto
  with 2 show ?case by simp
qed

lemma first_per_region_subset: "set (spec_first_per_region eps) \<subseteq> set eps"
  by (induction eps rule: spec_first_per_region.induct) auto

lemma first_per_region_distinct: "distinct (map endpoint_region (spec_first_per_region eps))"
proof (induction eps rule: spec_first_per_region.induct)
  case 1
  then show ?case by simp
next
  case (2 ep eps)
  have "endpoint_region ep \<notin> endpoint_region ` set (spec_first_per_region (filter (\<lambda>x. endpoint_region x \<noteq> endpoint_region ep) eps))"
    by (auto simp: first_per_region_regions)
  with 2 show ?case by simp
qed

lemma first_per_region_find:
  "ep \<in> set (spec_first_per_region eps) \<Longrightarrow>
   find (\<lambda>x. endpoint_region x = endpoint_region ep) eps = Some ep"
proof (induction eps rule: spec_first_per_region.induct)
  case 1
  then show ?case by simp
next
  case (2 ep0 eps)
  show ?case
  proof (cases "ep = ep0")
    case True
    then show ?thesis by simp
  next
    case False
    with 2(2) have mem: "ep \<in> set (spec_first_per_region (filter (\<lambda>x. endpoint_region x \<noteq> endpoint_region ep0) eps))"
      by simp
    then have "ep \<in> set (filter (\<lambda>x. endpoint_region x \<noteq> endpoint_region ep0) eps)"
      using first_per_region_subset by blast
    then have ne: "endpoint_region ep \<noteq> endpoint_region ep0" by simp
    have "find (\<lambda>x. endpoint_region x = endpoint_region ep) (filter (\<lambda>x. endpoint_region x \<noteq> endpoint_region ep0) eps)
        = find (\<lambda>x. endpoint_region x = endpoint_region ep) eps"
      using ne by (induction eps) auto
    with 2(1) [OF mem] ne show ?thesis by auto
  qed
qed

lemma grouped_Nil: "grouped [] []"
  by (simp add: grouped_def)

lemma grouped_extend:
  "grouped xs idx \<Longrightarrow> parse_endpoints idx ys = Inr idx' \<Longrightarrow> grouped (xs @ ys) idx'"
  by (simp add: grouped_def parse_endpoints_append)

text \<open>Auth 2.0: after any number of service records, the region dict under a type and
  a name is the grouping of the endpoints listed for them so far.\<close>

lemma parse_service_v2_Inr:
  assumes "parse_service_v2 cat svc = Inr cat'"
  shows "\<exists>t0 n0 regions.
           (\<forall>t n. service_is t n svc \<longleftrightarrow> t = t0 \<and> n = n0)
         \<and> parse_endpoints (dict_get (dict_get cat t0) n0) (service_endpoints svc) = Inr regions
         \<and> (\<forall>t n. dict_get (dict_get cat' t) n =
                     (if t = t0 \<and> n = n0 then regions else dict_get (dict_get cat t) n))"
proof -
  from assms obtain tv nv t0 n0 epsv eps regions where
        tv: "py_getitem svc ''type'' = Inr tv" and nv: "py_get svc ''name'' JNull = Inr nv"
    and t0: "hash_key tv = Inr t0" and n0: "hash_key nv = Inr n0"
    and epsv: "py_get svc ''endpoints'' (JArr []) = Inr epsv" and eps: "py_iter epsv = Inr eps"
    and regions: "parse_endpoints
          (dict_get (setdefault_empty n0 (dict_get (setdefault_empty t0 cat) t0)) n0) eps = Inr regions"
    and cat': "cat' = AList.update t0
          (AList.update n0 regions (setdefault_empty n0 (dict_get (setdefault_empty t0 cat) t0)))
          (setdefault_empty t0 cat)"
    by (auto simp: parse_service_v2_def Let_def split: sum.splits)
  have 1: "\<forall>t n. service_is t n svc \<longleftrightarrow> t = t0 \<and> n = n0"
    using tv nv t0 n0 by (auto simp: service_is_def key_of_def field_or_null_def)
  have 2: "parse_endpoints (dict_get (dict_get cat t0) n0) (service_endpoints svc) = Inr regions"
    using regions epsv eps by (simp add: service_endpoints_def elements_def dict_get_setdefault_empty)
  have 3: "\<forall>t n. dict_get (dict_get cat' t) n = (if t = t0 \<and> n = n0 then regions else dict_get (dict_get cat t) n)"
    by (simp add: cat' dict_get_update dict_get_setdefault_empty)
  from 1 2 3 show ?thesis by blast
qed

lemma parse_services_v2_grouped:
  "parse_services_v2 cat svcs = Inr cat' \<Longrightarrow>
   (\<And>t n. grouped (L t n) (dict_get (dict_get cat t) n)) \<Longrightarrow>
   grouped (L t n @ concat (map service_endpoints (filter (service_is t n) svcs)))
           (dict_get (dict_get cat' t) n)"
proof (induction svcs arbitrary: cat L)
  case Nil
  then show ?case by simp
next
  case (Cons svc svcs)
  from Cons.prems(1) obtain cat1 where s: "parse_service_v2 cat svc = Inr cat1"
    and rest: "parse_services_v2 cat1 svcs = Inr cat'"
    by (auto split: sum.splits)
  from parse_service_v2_Inr [OF s] obtain t0 n0 regions where
    svc_is: "\<forall>t n. service_is t n svc \<longleftrightarrow> t = t0 \<and> n = n0"
    and regions: "parse_endpoints (dict_get (dict_get cat t0) n0) (service_endpoints svc) = Inr regions"
    and cat1: "\<forall>t n. dict_get (dict_get cat1 t) n = (if t = t0 \<and> n = n0 then regions else dict_get (dict_get cat t) n)"
    by blast
  define L1 where "L1 = (\<lambda>t n. L t n @ (if service_is t n svc then service_endpoints svc else []))"
  have inv: "\<And>t n. grouped (L1 t n) (dict_get (dict_get cat1 t) n)"
  proof -
    fix t n
    show "grouped (L1 t n) (dict_get (dict_get cat1 t) n)"
    proof (cases "t = t0 \<and> n = n0")
      case True
      with grouped_extend [OF Cons.prems(2) [of t0 n0] regions] show ?thesis
        by (simp add: L1_def svc_is cat1)
    next
      case False
      with Cons.prems(2) [of t n] show ?thesis
        by (auto simp: L1_def svc_is cat1)
    qed
  qed
  from Cons.IH [OF rest inv] show ?case
    by (cases "service_is t n svc") (simp_all add: L1_def)
qed

lemma parse_auth_v2_grouped:
  assumes "parse_auth_v2 raw = Inr cat"
  shows "grouped (concat (map service_endpoints (filter (service_is t n) (elements raw))))
           (dict_get (dict_get cat t) n)"
proof -
  from assms obtain svcs where svcs: "py_iter raw = Inr svcs" and p: "parse_services_v2 [] svcs = Inr cat"
    by (auto simp: parse_auth_v2_def split: sum.splits)
  have "\<And>t n. grouped ((\<lambda>t n. []) t n) (dict_get (dict_get [] t) n)"
    by (simp add: dict_get_Nil grouped_Nil)
  from parse_services_v2_grouped [OF p this, of t n] svcs show ?thesis
    by (simp add: elements_def)
qed

text \<open>Auth 1.x: each service key holds the grouping of its own list.\<close>

lemma parse_services_v1_grouped:
  "distinct (map fst items) \<Longrightarrow> parse_services_v1 cat items = Inr cat' \<Longrightarrow>
   (case map_of items name of
      Some v \<Rightarrow> grouped (elements v) (dict_get cat' (KStr name))
    | None \<Rightarrow> dict_get cat' (KStr name) = dict_get cat (KStr name))
   \<and> dict_get cat' KNone = dict_get cat KNone
   \<and> dict_get cat' (KNum i) = dict_get cat (KNum i)"
proof (induction items arbitrary: cat)
  case Nil
  then show ?case by simp
next
  case (Cons item items)
  obtain service endpoints where item: "item = (service, endpoints)" by (cases item)
  from Cons.prems(2) item obtain eps regions where eps: "py_iter endpoints = Inr eps"
    and regions: "parse_endpoints [] eps = Inr regions"
    and rest: "parse_services_v1 (AList.update (KStr service) regions (AList.update (KStr service) [] cat)) items = Inr cat'"
    by (auto simp: Let_def dict_get_update split: sum.splits)
  from Cons.prems(1) item have d: "distinct (map fst items)" and fresh: "map_of items service = None"
    by (auto simp: map_of_eq_None_iff)
  note IH = Cons.IH [OF d rest]
  show ?case
  proof (cases "name = service")
    case True
    with IH fresh eps regions item show ?thesis
      by (simp add: dict_get_update grouped_def elements_def)
  next
    case False
    with IH item show ?thesis
      by (simp add: dict_get_update split: option.splits)
  qed
qed

lemma parse_auth_v1_grouped:
  assumes "parse_auth_v1 raw = Inr cat"
  shows "grouped (case n of
                    KStr name \<Rightarrow> (case py_getitem raw name of Inl err \<Rightarrow> [] | Inr v \<Rightarrow> elements v)
                  | _ \<Rightarrow> [])
           (dict_get cat n)"
proof -
  from assms obtain kvs where raw: "raw = JObj kvs"
    and p: "parse_services_v1 [] (AList.clearjunk kvs) = Inr cat"
    by (cases raw) (auto simp: parse_auth_v1_def)
  have d: "distinct (map fst (AList.clearjunk kvs))"
    by (rule distinct_clearjunk)
  show ?thesis
  proof (cases n)
    case KNone
    with parse_services_v1_grouped [OF d p] show ?thesis
      by (simp add: dict_get_Nil grouped_Nil)
  next
    case (KNum i)
    with parse_services_v1_grouped [OF d p, of _ i] show ?thesis
      by (simp add: dict_get_Nil grouped_Nil)
  next
    case (KStr name)
    with parse_services_v1_grouped [OF d p, of name] raw show ?thesis
      by (auto simp: dict_get_Nil grouped_Nil map_of_clearjunk split: option.splits)
  qed
qed

text \<open>A constructed catalog answers a lookup with the grouping of the endpoints the
  raw catalog lists for the service.\<close>

lemma constructed_regions:
  assumes "OpenStackServiceCatalog raw ver = Inr c"
  shows "\<exists>idx. service_regions c t n = Inr idx
               \<and> grouped (listed_endpoints (sc_auth_version c) raw t n) idx"
proof -
  define v where "v = (case ver of None \<Rightarrow> AUTH_API_VERSION
                        | Some x \<Rightarrow> if x \<noteq> [] then x else AUTH_API_VERSION)"
  show ?thesis
  proof (cases "str_contains ''2.0'' v")
    case True
    with assms obtain cat where cat: "parse_auth_v2 raw = Inr cat"
      and c: "c = \<lparr>sc_auth_version = v, sc_index = IndexV2 cat\<rparr>"
      by (auto simp: OpenStackServiceCatalog_def v_def Let_def split: sum.splits)
    from parse_auth_v2_grouped [OF cat, of t n] True show ?thesis
      by (simp add: c service_regions_def listed_endpoints_def)
  next
    case False
    with assms obtain cat where cat: "parse_auth_v1 raw = Inr cat"
      and c: "c = \<lparr>sc_auth_version = v, sc_index = IndexV1 cat\<rparr>"
      and v1: "str_contains ''1.1'' v \<or> str_contains ''1.0'' v"
      by (auto simp: OpenStackServiceCatalog_def v_def Let_def split: sum.splits if_splits)
    from parse_auth_v1_grouped [OF cat, of n] False v1 show ?thesis
      by (auto simp: c service_regions_def listed_endpoints_def)
  qed
qed

lemma public_urls_of_dicts:
  "(\<And>ep. ep \<in> set eps \<Longrightarrow> \<exists>kvs. ep = JObj kvs) \<Longrightarrow>
   public_urls eps = Inr (List.map_filter spec_public_url eps)"
proof (induction eps)
  case Nil
  then show ?case by (simp add: List.map_filter_simps)
next
  case (Cons ep eps)
  then obtain kvs where "ep = JObj kvs" by auto
  with Cons show ?case
    by (auto simp: List.map_filter_simps spec_public_url_def split: option.splits)
qed

section \<open>The Service Catalog: lookups\<close>

lemmas catalog_eval =
  OpenStackServiceCatalog_def parse_auth_v2_def parse_service_v2_def add_endpoint_def
  setdefault_empty_def dict_get_def endpoint_in_def

lemmas listed_eval =
  matching_endpoints_def listed_endpoints_def elements_def service_is_def service_endpoints_def
  key_of_def field_or_null_def endpoint_region_def endpoint_in_def

lemmas wildcard_eval =
  spec_query_matches_def spec_asks_def service_type_of_def service_name_of_def spec_service_types_def
  elements_def service_endpoints_def key_of_def field_or_null_def endpoint_region_def endpoint_in_def

lemma example_catalogs:
  "OpenStackServiceCatalog dfw_catalog (Some ''2.0'') = Inr dfw_index"
  "OpenStackServiceCatalog nova_catalog (Some ''2.0'') = Inr nova_index"
  "OpenStackServiceCatalog files_catalog (Some ''1.1'') = Inr files_index"
  by (simp_all add: dfw_catalog_def dfw_index_def nova_catalog_def nova_index_def files_catalog_def
      files_index_def catalog_eval parse_auth_v1_def)

lemma not_listed_no_endpoints:
  "\<not> service_listed ver raw t n \<Longrightarrow> listed_endpoints ver raw t n = []"
  by (auto simp: service_listed_def listed_endpoints_def list_ex_iff filter_empty_conv
      split: if_splits hkey.splits sum.splits)

text \<open>
  C3, amended: on a constructed catalog, \<^verbatim>\<open>get_endpoint\<close> returns the endpoint when
  exactly one endpoint is listed under exactly the service type, name and region
  asked for, and the empty record, not an error, when none or several are; an
  argument left out is \<^verbatim>\<open>None\<close>, which only an absent or null name or region equals,
  and a 1.x catalog takes no account of the service type.
\<close>

theorem get_endpoint_sole_match:
  assumes "OpenStackServiceCatalog raw ver = Inr c"
  shows "get_endpoint c t n r =
           Inr (case matching_endpoints (sc_auth_version c) raw t n r of
                  [ep] \<Rightarrow> ep
                | _ \<Rightarrow> JObj [])"
proof -
  from constructed_regions [OF assms, of t n] obtain idx where
    idx: "service_regions c t n = Inr idx"
    and g: "parse_endpoints [] (listed_endpoints (sc_auth_version c) raw t n) = Inr idx"
    by (auto simp: grouped_def)
  have "dict_get idx r = matching_endpoints (sc_auth_version c) raw t n r"
    using parse_endpoints_lookup [OF g, of r] by (simp add: dict_get_Nil matching_endpoints_def)
  then show ?thesis
    by (cases "matching_endpoints (sc_auth_version c) raw t n r" rule: list.exhaust;
        cases "tl (matching_endpoints (sc_auth_version c) raw t n r)")
       (auto simp: get_endpoint_def idx Let_def)
qed

text \<open>One compute/nova endpoint in DFW and one in ORD: the DFW query returns the DFW
  record, the query without region returns the empty record.\<close>

theorem get_endpoint_sole_match_witness:
  "\<exists>c. OpenStackServiceCatalog nova_catalog (Some ''2.0'') = Inr c
      \<and> get_endpoint c (KStr ''compute'') (KStr ''nova'') (KStr ''DFW'') = Inr (endpoint_in ''DFW'' ''https://dfw'')
      \<and> get_endpoint c (KStr ''compute'') (KStr ''nova'') KNone = Inr (JObj [])"
proof -
  have c: "OpenStackServiceCatalog nova_catalog (Some ''2.0'') =
      Inr \<lparr>sc_auth_version = ''2.0'', sc_index = IndexV2
             [(KStr ''compute'', [(KStr ''nova'',
                [(KStr ''DFW'', [endpoint_in ''DFW'' ''https://dfw'']),
                 (KStr ''ORD'', [endpoint_in ''ORD'' ''https://ord''])])])]\<rparr>"
    by (simp add: nova_catalog_def catalog_eval)
  have "matching_endpoints ''2.0'' nova_catalog (KStr ''compute'') (KStr ''nova'') (KStr ''DFW'')
          = [endpoint_in ''DFW'' ''https://dfw'']"
       "matching_endpoints ''2.0'' nova_catalog (KStr ''compute'') (KStr ''nova'') KNone = []"
    by (simp_all add: nova_catalog_def listed_eval)
  with get_endpoint_sole_match [OF c, of "KStr ''compute''" "KStr ''nova''" "KStr ''DFW''"]
       get_endpoint_sole_match [OF c, of "KStr ''compute''" "KStr ''nova''" KNone]
       c
  show ?thesis by simp
qed

text \<open>
  C3, as stated, fails: with a single compute/nova endpoint, in DFW, the query
  without region matches exactly that endpoint in the spec's reading and
  \<^verbatim>\<open>get_endpoint\<close> returns the empty record; on a 1.1 catalog a query with a service
  type the catalog does not name returns the endpoint of the name and region.
\<close>

theorem get_endpoint_wildcard_counterexample:
  "OpenStackServiceCatalog dfw_catalog (Some ''2.0'') = Inr dfw_index
   \<and> spec_query_matches ''2.0'' dfw_catalog (KStr ''compute'') (KStr ''nova'') KNone
       = [endpoint_in ''DFW'' ''https://dfw'']
   \<and> get_endpoint dfw_index (KStr ''compute'') (KStr ''nova'') KNone = Inr (JObj [])
   \<and> OpenStackServiceCatalog files_catalog (Some ''1.1'') = Inr files_index
   \<and> Some (KStr ''no-such-type'') \<notin> set (spec_service_types ''1.1'' files_catalog)
   \<and> get_endpoint files_index (KStr ''no-such-type'') (KStr ''cloudFiles'') (KStr ''DFW'')
       = Inr (endpoint_in ''DFW'' ''https://files'')"
  by (simp add: example_catalogs)
     (simp add: dfw_catalog_def dfw_index_def files_catalog_def files_index_def wildcard_eval
        get_endpoint_def service_regions_def dict_get_def)

text \<open>
  C8, amended: on a constructed catalog, \<^verbatim>\<open>get_endpoints\<close> returns, without error, a
  list of endpoint records with exactly one record for every region found among the
  endpoints listed under exactly the service type and name asked for (auth 2.0; a
  name left out is \<^verbatim>\<open>None\<close>) or under the service name alone (auth 1.x, which takes
  no account of the service type): the first endpoint listed for that region.  A
  type and name (auth 2.0) or a name (auth 1.x) that the catalog does not list gives
  the empty list.
\<close>

theorem get_endpoints_first_per_region:
  assumes "OpenStackServiceCatalog raw ver = Inr c"
  shows "\<exists>eps. get_endpoints c t n = Inr eps
          \<and> eps = spec_first_per_region (listed_endpoints (sc_auth_version c) raw t n)
          \<and> distinct (map endpoint_region eps)
          \<and> endpoint_region ` set eps = endpoint_region ` set (listed_endpoints (sc_auth_version c) raw t n)
          \<and> (\<forall>ep \<in> set eps. find (\<lambda>x. endpoint_region x = endpoint_region ep)
                                (listed_endpoints (sc_auth_version c) raw t n) = Some ep)
          \<and> (\<not> service_listed (sc_auth_version c) raw t n \<longrightarrow> eps = [])"
proof -
  from constructed_regions [OF assms, of t n] obtain idx where
    idx: "service_regions c t n = Inr idx"
    and g: "parse_endpoints [] (listed_endpoints (sc_auth_version c) raw t n) = Inr idx"
    by (auto simp: grouped_def)
  from grouping_invariants [OF g] idx
  have "get_endpoints c t n = Inr (spec_first_per_region (listed_endpoints (sc_auth_version c) raw t n))"
    by (simp add: get_endpoints_def)
  then show ?thesis
    by (auto simp: first_per_region_distinct first_per_region_regions first_per_region_find
        not_listed_no_endpoints)
qed

text \<open>DFW listed twice and ORD once: the first DFW endpoint and the ORD endpoint come
  back; a name the catalog does not list gives the empty list, in 2.0 and in 1.1.\<close>

theorem get_endpoints_first_per_region_witness:
  "\<exists>c. OpenStackServiceCatalog doubled_catalog (Some ''2.0'') = Inr c
      \<and> get_endpoints c (KStr ''compute'') (KStr ''nova'')
           = Inr [endpoint_in ''DFW'' ''https://dfw1'', endpoint_in ''ORD'' ''https://ord'']
      \<and> get_endpoints c (KStr ''compute'') (KStr ''glance'') = Inr []
      \<and> get_endpoints files_index KNone (KStr ''cloudServers'') = Inr []"
proof -
  have c: "OpenStackServiceCatalog doubled_catalog (Some ''2.0'') =
      Inr \<lparr>sc_auth_version = ''2.0'', sc_index = IndexV2
             [(KStr ''compute'', [(KStr ''nova'',
                [(KStr ''DFW'', [endpoint_in ''DFW'' ''https://dfw1'', endpoint_in ''DFW'' ''https://dfw2'']),
                 (KStr ''ORD'', [endpoint_in ''ORD'' ''https://ord''])])])]\<rparr>"
    by (simp add: doubled_catalog_def catalog_eval)
  have "spec_first_per_region (listed_endpoints ''2.0'' doubled_catalog (KStr ''compute'') (KStr ''nova''))
          = [endpoint_in ''DFW'' ''https://dfw1'', endpoint_in ''ORD'' ''https://ord'']"
       "\<not> service_listed ''2.0'' doubled_catalog (KStr ''compute'') (KStr ''glance'')"
       "\<not> service_listed ''1.1'' files_catalog KNone (KStr ''cloudServers'')"
    by (simp_all add: doubled_catalog_def files_catalog_def service_listed_def listed_eval)
  with get_endpoints_first_per_region [OF c, of "KStr ''compute''" "KStr ''nova''"]
       get_endpoints_first_per_region [OF c, of "KStr ''compute''" "KStr ''glance''"]
       get_endpoints_first_per_region [OF example_catalogs(3), of KNone "KStr ''cloudServers''"]
       c
  show ?thesis by (auto simp: files_index_def)
qed

text \<open>
  C8, as stated, fails: on a 1.1 catalog a service type the catalog does not name,
  with the name \<open>cloudFiles\<close>, gives the endpoint and not the empty list; on a 2.0
  catalog the query for the type \<open>compute\<close> without name gives the empty list, where
  the spec's reading finds the service's two regions.
\<close>

theorem get_endpoints_unknown_type_counterexample:
  "OpenStackServiceCatalog files_catalog (Some ''1.1'') = Inr files_index
   \<and> Some (KStr ''no-such-type'') \<notin> set (spec_service_types ''1.1'' files_catalog)
   \<and> get_endpoints files_index (KStr ''no-such-type'') (KStr ''cloudFiles'')
       = Inr [endpoint_in ''DFW'' ''https://files'']
   \<and> OpenStackServiceCatalog nova_catalog (Some ''2.0'') = Inr nova_index
   \<and> spec_query_matches ''2.0'' nova_catalog (KStr ''compute'') KNone KNone
       = [endpoint_in ''DFW'' ''https://dfw'', endpoint_in ''ORD'' ''https://ord'']
   \<and> get_endpoints nova_index (KStr ''compute'') KNone = Inr []"
  by (simp add: example_catalogs)
     (simp add: nova_catalog_def nova_index_def files_catalog_def files_index_def wildcard_eval
        get_endpoints_def service_regions_def dict_get_def)

text \<open>
  C9: on a constructed catalog, \<^verbatim>\<open>get_public_urls\<close> returns, without error, the
  \<open>publicURL\<close> field of every endpoint \<^verbatim>\<open>get_endpoints\<close> returns that has one, and
  leaves the others out.
\<close>

theorem get_public_urls_filtered:
  assumes "OpenStackServiceCatalog raw ver = Inr c"
  shows "\<exists>eps. get_endpoints c t n = Inr eps
          \<and> get_public_urls c t n = Inr (List.map_filter spec_public_url eps)"
proof -
  from constructed_regions [OF assms, of t n] obtain idx where
    idx: "service_regions c t n = Inr idx"
    and g: "parse_endpoints [] (listed_endpoints (sc_auth_version c) raw t n) = Inr idx"
    by (auto simp: grouped_def)
  from grouping_invariants [OF g] idx
  have e: "get_endpoints c t n = Inr (spec_first_per_region (listed_endpoints (sc_auth_version c) raw t n))"
    by (simp add: get_endpoints_def)
  have "\<And>ep. ep \<in> set (spec_first_per_region (listed_endpoints (sc_auth_version c) raw t n)) \<Longrightarrow> \<exists>kvs. ep = JObj kvs"
    using parse_endpoints_dicts [OF g] first_per_region_subset by blast
  from public_urls_of_dicts [OF this] e show ?thesis
    by (simp add: get_public_urls_def)
qed

text \<open>An object-store service whose ORD endpoint has no \<open>publicURL\<close>: only the DFW URL
  comes back.\<close>

theorem get_public_urls_filtered_witness:
  "\<exists>c. OpenStackServiceCatalog storage_catalog (Some ''2.0'') = Inr c
      \<and> get_endpoints c (KStr ''object-store'') KNone
           = Inr [endpoint_in ''DFW'' ''https://files'',
                  JObj [(''region'', JStr ''ORD''), (''internalURL'', JStr ''https://snet'')]]
      \<and> get_public_urls c (KStr ''object-store'') KNone = Inr [JStr ''https://files'']"
proof -
  have c: "OpenStackServiceCatalog storage_catalog (Some ''2.0'') =
      Inr \<lparr>sc_auth_version = ''2.0'', sc_index = IndexV2
             [(KStr ''object-store'', [(KNone,
                [(KStr ''DFW'', [endpoint_in ''DFW'' ''https://files'']),
                 (KStr ''ORD'', [JObj [(''region'', JStr ''ORD''), (''internalURL'', JStr ''https://snet'')]])])])]\<rparr>"
    by (simp add: storage_catalog_def catalog_eval)
  have e: "get_endpoints \<lparr>sc_auth_version = ''2.0'', sc_index = IndexV2
             [(KStr ''object-store'', [(KNone,
                [(KStr ''DFW'', [endpoint_in ''DFW'' ''https://files'']),
                 (KStr ''ORD'', [JObj [(''region'', JStr ''ORD''), (''internalURL'', JStr ''https://snet'')]])])])]\<rparr>
             (KStr ''object-store'') KNone
           = Inr [endpoint_in ''DFW'' ''https://files'',
                  JObj [(''region'', JStr ''ORD''), (''internalURL'', JStr ''https://snet'')]]"
    by (simp add: get_endpoints_def service_regions_def dict_get_def)
  from get_public_urls_filtered [OF c, of "KStr ''object-store''" KNone] e c
  show ?thesis
    by (simp add: List.map_filter_simps spec_public_url_def endpoint_in_def)
qed

end
